theory Spec2Isabelle
  imports Main
begin

section \<open>Schema types and selection trees\<close>

text \<open>
  The two synthesis routines of the repository are embedded here:
  the class \<^verbatim>\<open>SelectionSetToObject\<close> of
  \<^verbatim>\<open>visitor-plugin-common/src/selection-set-to-object.ts\<close>, which composes one
  nested type expression as text, and the function \<^verbatim>\<open>buildInnerModelsArray\<close> of
  \<^verbatim>\<open>src/inner-models-builer.ts\<close>, which fills a flat array of named models.

  A schema type object of graphql-js is a named type (with a kind and, for objects and
  interfaces, its field map) or a wrapper around another type. Field types refer to named
  types by name and are resolved through the type map of the schema; graphql-js holds a
  direct reference instead, so in a schema built by graphql-js every such lookup succeeds.
  Where a lookup finds nothing, the embedding continues with \<open>None\<close>, which is
  JavaScript's \<^verbatim>\<open>undefined\<close>.
\<close>

datatype type_kind =
  ScalarKind | EnumKind | ObjectKind | InterfaceKind | UnionKind | InputObjectKind

datatype gql_type = NamedType string | ListType gql_type | NonNullType gql_type

record named_type =
  nt_name :: string
  nt_kind :: type_kind
  nt_fields :: "(string \<times> gql_type) list"

record schema =
  typeMap :: "(string \<times> named_type) list"
  queryType :: "named_type option"
  mutationType :: "named_type option"
  subscriptionType :: "named_type option"

text \<open>
  A selection node: a field (name, optional alias, optional selection set), a fragment
  spread (fragment name) or an inline fragment (optional type condition, selection set).
  A selection set that is absent is \<open>None\<close>.
\<close>

datatype selection =
    Field string "string option" "selection list option"
  | FragmentSpread string
  | InlineFragment "string option" "selection list option"

text \<open>Every exception the embedded code can raise is a \<^verbatim>\<open>TypeError\<close> of the
  JavaScript runtime; the argument names the property whose access or call failed.\<close>

datatype error = TypeError string

definition getType :: "schema \<Rightarrow> string \<Rightarrow> named_type option" where
  "getType s n = map_of (typeMap s) n"

text \<open>\<^verbatim>\<open>getNamedType\<close> of graphql-js: strip every list and non-null wrapper.\<close>

fun getNamedType :: "gql_type \<Rightarrow> string" where
  "getNamedType (NamedType n) = n"
| "getNamedType (ListType t) = getNamedType t"
| "getNamedType (NonNullType t) = getNamedType t"

definition isObjectType :: "named_type option \<Rightarrow> bool" where
  "isObjectType t = (case t of None \<Rightarrow> False | Some nt \<Rightarrow> nt_kind nt = ObjectKind)"

definition isInterfaceType :: "named_type option \<Rightarrow> bool" where
  "isInterfaceType t = (case t of None \<Rightarrow> False | Some nt \<Rightarrow> nt_kind nt = InterfaceKind)"

definition isUnionType :: "named_type option \<Rightarrow> bool" where
  "isUnionType t = (case t of None \<Rightarrow> False | Some nt \<Rightarrow> nt_kind nt = UnionKind)"

definition isEnumType :: "named_type option \<Rightarrow> bool" where
  "isEnumType t = (case t of None \<Rightarrow> False | Some nt \<Rightarrow> nt_kind nt = EnumKind)"

definition isScalarType :: "named_type option \<Rightarrow> bool" where
  "isScalarType t = (case t of None \<Rightarrow> False | Some nt \<Rightarrow> nt_kind nt = ScalarKind)"

section \<open>JavaScript strings and objects\<close>

text \<open>\<^verbatim>\<open>Array.prototype.join\<close> on an array of strings.\<close>

fun js_join :: "string \<Rightarrow> string list \<Rightarrow> string" where
  "js_join sep [] = []"
| "js_join sep [x] = x"
| "js_join sep (x # y # ys) = x @ sep @ js_join sep (y # ys)"

text \<open>The template fragment \<^verbatim>\<open>'${t}'\<close>: the text between two apostrophes.\<close>

definition quoted :: "string \<Rightarrow> string" where
  "quoted s = CHR 0x27 # s @ [CHR 0x27]"

text \<open>
  Reading \<^verbatim>\<open>obj[key]\<close> on an object literal finds an own property, or a property
  inherited from \<^verbatim>\<open>Object.prototype\<close> (all of them functions or objects, hence truthy),
  or \<^verbatim>\<open>undefined\<close>. Own properties are kept in insertion order, which is the order
  \<^verbatim>\<open>Object.keys\<close> lists them in (GraphQL names are never integer-like).
\<close>

datatype 'a js_prop = Own 'a | Inherited | Undefined

definition objectPrototypeKeys :: "string list" where
  "objectPrototypeKeys =
     [''constructor'', ''hasOwnProperty'', ''isPrototypeOf'', ''propertyIsEnumerable'',
      ''toLocaleString'', ''toString'', ''valueOf'', ''__proto__'',
      ''__defineGetter__'', ''__defineSetter__'', ''__lookupGetter__'', ''__lookupSetter__'']"

definition js_get :: "(string \<times> 'a) list \<Rightarrow> string \<Rightarrow> 'a js_prop" where
  "js_get obj k =
     (case map_of obj k of
        Some v \<Rightarrow> Own v
      | None \<Rightarrow> if k \<in> set objectPrototypeKeys then Inherited else Undefined)"

section \<open>SelectionSetToObject\<close>

record convert_options =
  suffix :: "string option"
  useTypesPrefix :: bool

text \<open>
  The constructor arguments shared by an instance and every instance it creates, together
  with the methods a subclass supplies: \<^verbatim>\<open>wrapTypeWithModifiers\<close> (abstract in the base
  class), \<^verbatim>\<open>formatNamedField\<close> (identity in the base class) and the helper
  \<^verbatim>\<open>quoteIfNeeded\<close> imported from \<^verbatim>\<open>./utils\<close>, which is not among the sources and
  is taken as a parameter.
\<close>

record config =
  scalars :: "(string \<times> string) list"
  schema_of :: schema
  convertName :: "string \<Rightarrow> convert_options \<Rightarrow> string"
  addTypename :: bool
  wrapTypeWithModifiers :: "string \<Rightarrow> gql_type \<Rightarrow> string"
  formatNamedField :: "string \<Rightarrow> string"
  quoteIfNeeded :: "string list \<Rightarrow> string \<Rightarrow> string"

record aliased_field =
  af_alias :: string
  af_fieldName :: string

record link_field =
  lf_alias :: "string option"
  lf_name :: string
  lf_type :: string
  lf_selectionSet :: string

text \<open>The accumulator fields of an instance, in the order the class declares them.\<close>

record buckets =
  primitiveFields :: "string list"
  primitiveAliasedFields :: "aliased_field list"
  linksFields :: "link_field list"
  fragmentSpreads :: "string list"
  inlineFragments :: "(string \<times> string list) list"
  queriedForTypename :: bool

definition emptyBuckets :: buckets where
  "emptyBuckets =
     \<lparr>primitiveFields = [], primitiveAliasedFields = [], linksFields = [],
      fragmentSpreads = [], inlineFragments = [], queriedForTypename = False\<rparr>"

definition isMetadataFieldName :: "string \<Rightarrow> bool" where
  "isMetadataFieldName name = (name \<in> set [''__schema'', ''__type''])"

definition isRootType :: "named_type \<Rightarrow> schema \<Rightarrow> bool" where
  "isRootType t s =
     (Some t = queryType s \<or> Some t = mutationType s \<or> Some t = subscriptionType s)"

text \<open>\<^verbatim>\<open>metadataFieldMap[name].type\<close>: the declared types of the two meta-fields of
  graphql-js, \<^verbatim>\<open>__schema: __Schema!\<close> and \<^verbatim>\<open>__type: __Type\<close>.\<close>

definition metadataFieldMap :: "string \<Rightarrow> gql_type option" where
  "metadataFieldMap name =
     (if name = ''__schema'' then Some (NonNullType (NamedType ''__Schema''))
      else if name = ''__type'' then Some (NamedType ''__Type'')
      else None)"

text \<open>
  Modelled from the spec: \<^verbatim>\<open>getBaseType\<close> of \<^verbatim>\<open>./utils\<close> is not among the sources.
  The Type Classifier strips the list and required wrappers to expose the named base type.
\<close>

definition getBaseType :: "schema \<Rightarrow> gql_type \<Rightarrow> named_type option" where
  "getBaseType s t = getType s (getNamedType t)"

definition scalarsTruthy :: "config \<Rightarrow> string \<Rightarrow> bool" where
  "scalarsTruthy cfg typeName =
     (case js_get (scalars cfg) typeName of
        Own v \<Rightarrow> v \<noteq> []
      | Inherited \<Rightarrow> True
      | Undefined \<Rightarrow> False)"

subsection \<open>The Type Composer: the \<^verbatim>\<open>build*\<close> methods\<close>

definition buildTypeNameField :: "config \<Rightarrow> named_type \<Rightarrow> bool \<Rightarrow> string option" where
  "buildTypeNameField cfg pt queried =
     (let possibleTypes =
            (if \<not> isUnionType (Some pt) \<and> \<not> isInterfaceType (Some pt) then [nt_name pt] else [])
      in if length possibleTypes = 0 then None
         else Some (''{ '' @ formatNamedField cfg ''__typename'' @ (if queried then [] else ''?'')
                    @ '': '' @ js_join '' | '' (map quoted possibleTypes) @ '' }''))"

definition buildPrimitiveFields :: "string \<Rightarrow> string list \<Rightarrow> string option" where
  "buildPrimitiveFields parentName flds =
     (if length flds = 0 then None
      else Some (''Pick<'' @ parentName @ '', '' @ js_join '' | '' (map quoted flds) @ ''>''))"

definition buildAliasedPrimitiveFields ::
  "config \<Rightarrow> string \<Rightarrow> aliased_field list \<Rightarrow> string option" where
  "buildAliasedPrimitiveFields cfg parentName flds =
     (if length flds = 0 then None
      else Some (''{ '' @ js_join '', ''
             (map (\<lambda>aliasedField. formatNamedField cfg (af_alias aliasedField) @ '': ''
                     @ parentName @ ''['' @ quoted (af_fieldName aliasedField) @ '']'') flds)
             @ '' }''))"

definition aliasOrName :: "link_field \<Rightarrow> string" where
  "aliasOrName field =
     (case lf_alias field of
        None \<Rightarrow> lf_name field
      | Some a \<Rightarrow> if a = [] then lf_name field else a)"

definition buildLinkFields :: "config \<Rightarrow> link_field list \<Rightarrow> string option" where
  "buildLinkFields cfg flds =
     (if length flds = 0 then None
      else Some (''{ '' @ js_join '', ''
             (map (\<lambda>field. formatNamedField cfg (aliasOrName field) @ '': ''
                     @ lf_selectionSet field) flds)
             @ '' }''))"

definition buildInlineFragments :: "(string \<times> string list) list \<Rightarrow> string option" where
  "buildInlineFragments frags =
     (let allPossibleTypes = map (\<lambda>(typeName, bodies). js_join '' & '' bodies) frags
      in if length allPossibleTypes = 0 then None
         else Some (''('' @ js_join '' | '' allPossibleTypes @ '')''))"

definition buildFragmentSpread :: "config \<Rightarrow> string list \<Rightarrow> string option" where
  "buildFragmentSpread cfg fragmentsSpread =
     (if length fragmentsSpread = 0 then None
      else Some (quoteIfNeeded cfg
             (map (\<lambda>fragmentName. convertName cfg fragmentName
                     \<lparr>suffix = Some ''Fragment'', useTypesPrefix = True\<rparr>) fragmentsSpread)
             '' & ''))"

definition mergeAllFields :: "config \<Rightarrow> string list \<Rightarrow> string" where
  "mergeAllFields cfg fieldsSet = quoteIfNeeded cfg fieldsSet '' & ''"

text \<open>The filter \<^verbatim>\<open>f => f && f !== ''\<close>: drop \<^verbatim>\<open>null\<close> and the empty string.\<close>

fun nonEmptyParts :: "string option list \<Rightarrow> string list" where
  "nonEmptyParts [] = []"
| "nonEmptyParts (None # fs) = nonEmptyParts fs"
| "nonEmptyParts (Some f # fs) = (if f = [] then nonEmptyParts fs else f # nonEmptyParts fs)"

definition typeNamePart :: "config \<Rightarrow> named_type \<Rightarrow> buckets \<Rightarrow> string option" where
  "typeNamePart cfg pt b =
     (if addTypename cfg \<or> queriedForTypename b
      then buildTypeNameField cfg pt (queriedForTypename b) else None)"

text \<open>The second half of the \<^verbatim>\<open>string\<close> getter, from \<^verbatim>\<open>parentName\<close> on, for a
  parent type that is defined.\<close>

definition composeFields :: "config \<Rightarrow> named_type \<Rightarrow> buckets \<Rightarrow> string" where
  "composeFields cfg pt b =
     (let parentName = convertName cfg (nt_name pt) \<lparr>suffix = None, useTypesPrefix = True\<rparr>;
          typeName = typeNamePart cfg pt b;
          baseFields = buildPrimitiveFields parentName (primitiveFields b);
          aliasBaseFields = buildAliasedPrimitiveFields cfg parentName (primitiveAliasedFields b);
          linksFields' = buildLinkFields cfg (linksFields b);
          inlineFragments' = buildInlineFragments (inlineFragments b);
          fragmentSpreads' = buildFragmentSpread cfg (fragmentSpreads b);
          fieldsSet = nonEmptyParts
            [typeName, baseFields, aliasBaseFields, linksFields', fragmentSpreads', inlineFragments']
      in mergeAllFields cfg fieldsSet)"

subsection \<open>The Selection Collector: the \<^verbatim>\<open>_collect*\<close> methods and the getter\<close>

text \<open>The field definition \<^verbatim>\<open>_collectField\<close> looks up on a parent that is an object
  or an interface type, reduced to its declared type; \<open>None\<close> is \<^verbatim>\<open>undefined\<close>.\<close>

definition schemaField :: "schema \<Rightarrow> named_type option \<Rightarrow> string \<Rightarrow> gql_type option" where
  "schemaField s parent name =
     (case parent of
        None \<Rightarrow> None
      | Some pt \<Rightarrow>
          if isRootType pt s \<and> isMetadataFieldName name then metadataFieldMap name
          else map_of (nt_fields pt) name)"

text \<open>
  Each method takes the accumulators of the instance and returns them updated, together
  with the exception raised, if any: an exception leaves the accumulators as they were
  when it was raised.
\<close>

text \<open>
  Modelled from the spec: \<^verbatim>\<open>createNext\<close> throws in the base class and the subclasses
  that override it are not among the sources. For every link field and every inline
  fragment the collector recursively invokes a fresh Selection Collector against the
  resolved type and the nested selection set: a new instance with the same configuration
  and empty accumulators, whose \<^verbatim>\<open>string\<close> is read once.
\<close>

fun
  string_from :: "config \<Rightarrow> named_type option \<Rightarrow> selection list option \<Rightarrow> buckets
                   \<Rightarrow> (error + string) \<times> buckets"
  and collectSelections :: "config \<Rightarrow> named_type option \<Rightarrow> selection list \<Rightarrow> buckets
                   \<Rightarrow> error option \<times> buckets"
  and collectSelection :: "config \<Rightarrow> named_type option \<Rightarrow> selection \<Rightarrow> buckets
                   \<Rightarrow> error option \<times> buckets"
where
  "string_from cfg parent None b = (Inr [], b)"
| "string_from cfg parent (Some []) b = (Inr [], b)"
| "string_from cfg parent (Some (x # xs)) b =
     (case collectSelections cfg parent (x # xs) b of
        (Some e, b') \<Rightarrow> (Inl e, b')
      | (None, b') \<Rightarrow>
          (case parent of
             None \<Rightarrow> (Inl (TypeError ''name''), b')
           | Some pt \<Rightarrow> (Inr (composeFields cfg pt b'), b')))"
| "collectSelections cfg parent [] b = (None, b)"
| "collectSelections cfg parent (selection # rest) b =
     (case collectSelection cfg parent selection b of
        (Some e, b') \<Rightarrow> (Some e, b')
      | (None, b') \<Rightarrow> collectSelections cfg parent rest b')"
| "collectSelection cfg parent (Field name alias selectionSet) b =
     (if name = ''__typename'' then (None, b\<lparr>queriedForTypename := True\<rparr>)
      else if isObjectType parent \<or> isInterfaceType parent then
        (case schemaField (schema_of cfg) parent name of
           None \<Rightarrow> (Some (TypeError ''type''), b)
         | Some rawType \<Rightarrow>
             (case getBaseType (schema_of cfg) rawType of
                None \<Rightarrow> (Some (TypeError ''name''), b)
              | Some baseType \<Rightarrow>
                  let typeName = nt_name baseType in
                  if scalarsTruthy cfg typeName \<or> isEnumType (Some baseType)
                     \<or> isScalarType (Some baseType)
                  then (case alias of
                          None \<Rightarrow> (None, b\<lparr>primitiveFields := primitiveFields b @ [name]\<rparr>)
                        | Some a \<Rightarrow>
                            if a \<noteq> [] then
                              (None, b\<lparr>primitiveAliasedFields := primitiveAliasedFields b
                                 @ [\<lparr>af_alias = a, af_fieldName = name\<rparr>]\<rparr>)
                            else (None, b\<lparr>primitiveFields := primitiveFields b @ [name]\<rparr>))
                  else
                    (case fst (string_from cfg (Some baseType) selectionSet emptyBuckets) of
                       Inl e \<Rightarrow> (Some e, b)
                     | Inr body \<Rightarrow>
                         (None, b\<lparr>linksFields := linksFields b
                            @ [\<lparr>lf_alias = alias, lf_name = name, lf_type = typeName,
                                lf_selectionSet = wrapTypeWithModifiers cfg body rawType\<rparr>]\<rparr>))))
      else (None, b))"
| "collectSelection cfg parent (FragmentSpread name) b =
     (None, b\<lparr>fragmentSpreads := fragmentSpreads b @ [name]\<rparr>)"
| "collectSelection cfg parent (InlineFragment typeCondition selectionSet) b =
     (case typeCondition of
        None \<Rightarrow> (Some (TypeError ''name''), b)
      | Some onType \<Rightarrow>
          let schemaType = getType (schema_of cfg) onType;
              nested = fst (string_from cfg schemaType selectionSet emptyBuckets)
          in (case js_get (inlineFragments b) onType of
                Undefined \<Rightarrow>
                  (case nested of
                     Inl e \<Rightarrow> (Some e, b\<lparr>inlineFragments := inlineFragments b @ [(onType, [])]\<rparr>)
                   | Inr body \<Rightarrow>
                       (None, b\<lparr>inlineFragments := inlineFragments b @ [(onType, [body])]\<rparr>))
              | Inherited \<Rightarrow>
                  (case nested of
                     Inl e \<Rightarrow> (Some e, b)
                   | Inr body \<Rightarrow> (Some (TypeError ''push''), b))
              | Own bodies \<Rightarrow>
                  (case nested of
                     Inl e \<Rightarrow> (Some e, b)
                   | Inr body \<Rightarrow>
                       (None, b\<lparr>inlineFragments :=
                          map (\<lambda>(k, v). if k = onType then (k, v @ [body]) else (k, v))
                            (inlineFragments b)\<rparr>))))"

text \<open>
  An instance: its constructor arguments and its accumulators. \<open>new_sso\<close> is the
  constructor, \<open>get_string\<close> the getter \<^verbatim>\<open>string\<close>, which returns the text or the
  exception, and the instance as the read leaves it.
\<close>

record sso =
  sso_config :: config
  parentSchemaType :: "named_type option"
  sso_selectionSet :: "selection list option"
  sso_buckets :: buckets

definition new_sso :: "config \<Rightarrow> named_type option \<Rightarrow> selection list option \<Rightarrow> sso" where
  "new_sso cfg parent sels =
     \<lparr>sso_config = cfg, parentSchemaType = parent, sso_selectionSet = sels,
      sso_buckets = emptyBuckets\<rparr>"

definition get_string :: "sso \<Rightarrow> (error + string) \<times> sso" where
  "get_string this =
     (case string_from (sso_config this) (parentSchemaType this) (sso_selectionSet this)
             (sso_buckets this) of
        (r, b') \<Rightarrow> (r, this\<lparr>sso_buckets := b'\<rparr>))"

subsection \<open>Vocabulary for the properties of the collector\<close>

text \<open>Whether a selection list selects \<^verbatim>\<open>__typename\<close> itself.\<close>

definition selectsTypename :: "selection list \<Rightarrow> bool" where
  "selectsTypename sels =
     list_ex (\<lambda>sel. case sel of Field n a ss \<Rightarrow> n = ''__typename'' | _ \<Rightarrow> False) sels"

text \<open>
  The branch an inline fragment contributes: its type condition and the text its own
  collector returns. \<open>branches\<close> lists them for a selection list, in order;
  \<open>bodiesFor k\<close> keeps the texts of the branches whose type condition is \<open>k\<close>;
  \<open>accumulated\<close> is what a key holds after more texts have been pushed under it.
\<close>

definition branchOf :: "config \<Rightarrow> selection \<Rightarrow> (string \<times> string) list" where
  "branchOf cfg sel =
     (case sel of
        InlineFragment (Some onType) ss \<Rightarrow>
          (case fst (string_from cfg (getType (schema_of cfg) onType) ss emptyBuckets) of
             Inr body \<Rightarrow> [(onType, body)]
           | Inl e \<Rightarrow> [])
      | _ \<Rightarrow> [])"

definition branches :: "config \<Rightarrow> selection list \<Rightarrow> (string \<times> string) list" where
  "branches cfg sels = concat (map (branchOf cfg) sels)"

definition bodiesFor :: "string \<Rightarrow> (string \<times> string) list \<Rightarrow> string list" where
  "bodiesFor k brs = map snd (filter (\<lambda>p. fst p = k) brs)"

definition accumulated :: "string list option \<Rightarrow> string list \<Rightarrow> string list option" where
  "accumulated old new =
     (case old of
        None \<Rightarrow> (if new = [] then None else Some new)
      | Some bodies \<Rightarrow> Some (bodies @ new))"

text \<open>
  The parts that make up the text of a successful read: the record for \<^verbatim>\<open>__typename\<close>
  that the kind of the parent, the selection list and the typename flag call for, and the
  parts that follow it (projection, aliased fields, link fields, fragment spreads, inline
  fragments), empty ones dropped.
\<close>

definition typenameRecord :: "config \<Rightarrow> named_type \<Rightarrow> selection list \<Rightarrow> string list" where
  "typenameRecord cfg pt sels =
     (if nt_kind pt = UnionKind \<or> nt_kind pt = InterfaceKind then []
      else if selectsTypename sels
        then [''{ '' @ formatNamedField cfg ''__typename'' @ '': '' @ quoted (nt_name pt) @ '' }'']
      else if addTypename cfg
        then [''{ '' @ formatNamedField cfg ''__typename'' @ ''?: '' @ quoted (nt_name pt) @ '' }'']
      else [])"

definition otherParts :: "config \<Rightarrow> named_type \<Rightarrow> buckets \<Rightarrow> string list" where
  "otherParts cfg pt b =
     (let parentName = convertName cfg (nt_name pt) \<lparr>suffix = None, useTypesPrefix = True\<rparr>
      in nonEmptyParts
           [buildPrimitiveFields parentName (primitiveFields b),
            buildAliasedPrimitiveFields cfg parentName (primitiveAliasedFields b),
            buildLinkFields cfg (linksFields b),
            buildFragmentSpread cfg (fragmentSpreads b),
            buildInlineFragments (inlineFragments b)])"

section \<open>buildInnerModelsArray\<close>

record field_entry =
  fe_name :: string
  fe_type :: string
  fe_isArray :: bool
  fe_isRequired :: bool

record inline_fragment_entry =
  ife_typeName :: string
  ife_onModel :: string

text \<open>A \<^verbatim>\<open>Model\<close>; the two flags are absent until the first assignment to them.\<close>

record model =
  m_name :: string
  m_fields :: "field_entry list"
  m_fragmentsUsed :: "string list"
  m_inlineFragments :: "inline_fragment_entry list"
  m_usingFragments :: "bool option"
  m_hasInlineFragments :: "bool option"

definition newModel :: "string \<Rightarrow> model" where
  "newModel n =
     \<lparr>m_name = n, m_fields = [], m_fragmentsUsed = [], m_inlineFragments = [],
      m_usingFragments = None, m_hasInlineFragments = None\<rparr>"

text \<open>
  The helpers imported from \<^verbatim>\<open>./utils\<close> and from the package \<^verbatim>\<open>pascal-case\<close> are not
  among the sources and are parameters of the embedding. \<^verbatim>\<open>getFieldDef\<close> yields the
  declared type of the field definition it finds, or \<open>None\<close> for \<^verbatim>\<open>undefined\<close>;
  \<^verbatim>\<open>handleNameDuplications\<close> receives the models of \<^verbatim>\<open>result\<close> as they are at the call.
\<close>

record utils =
  getFieldDef :: "named_type option \<Rightarrow> selection \<Rightarrow> gql_type option"
  handleNameDuplications :: "string \<Rightarrow> model list \<Rightarrow> string"
  pascalCase :: "string \<Rightarrow> string"
  isArray :: "gql_type \<Rightarrow> bool"
  isRequired :: "gql_type \<Rightarrow> bool"
  getTypeName :: "(string \<times> string) list \<Rightarrow> named_type option \<Rightarrow> string"

text \<open>
  The models are mutable objects shared between the array \<^verbatim>\<open>result\<close> and the variable
  \<^verbatim>\<open>appendTo\<close>. The store is the list of all objects allocated so far, an address is an
  index into it, a new object goes to the end; \<^verbatim>\<open>result\<close> is a list of addresses and
  \<^verbatim>\<open>appendTo\<close> is an address or \<^verbatim>\<open>undefined\<close>.
\<close>

type_synonym store = "model list"

definition deref :: "store \<Rightarrow> nat list \<Rightarrow> model list" where
  "deref h r = map (\<lambda>a. h ! a) r"

definition pushField :: "store \<Rightarrow> nat \<Rightarrow> field_entry \<Rightarrow> store" where
  "pushField h a f = h[a := (h ! a)\<lparr>m_fields := m_fields (h ! a) @ [f]\<rparr>]"

definition pushFragmentUsed :: "store \<Rightarrow> nat \<Rightarrow> string \<Rightarrow> store" where
  "pushFragmentUsed h a n =
     (let fragmentsUsed = m_fragmentsUsed (h ! a) @ [n]
      in h[a := (h ! a)\<lparr>m_fragmentsUsed := fragmentsUsed,
                        m_usingFragments := Some (length fragmentsUsed > 0)\<rparr>])"

definition pushInlineFragment :: "store \<Rightarrow> nat \<Rightarrow> inline_fragment_entry \<Rightarrow> store" where
  "pushInlineFragment h a e =
     (let inlineFragments = m_inlineFragments (h ! a) @ [e]
      in h[a := (h ! a)\<lparr>m_inlineFragments := inlineFragments,
                        m_hasInlineFragments := Some (length inlineFragments > 0)\<rparr>])"

text \<open>
  \<open>buildInnerModelsArray\<close> is the function, \<open>forEachSelection\<close> the loop
  \<^verbatim>\<open>forEach\<close> and \<open>onSelection\<close> its callback. The callback assigns to the
  parameter \<^verbatim>\<open>appendTo\<close> of the enclosing call, so the loop threads it together with
  \<^verbatim>\<open>result\<close> and the store. The function returns \<^verbatim>\<open>result\<close>.
\<close>

function
  buildInnerModelsArray :: "utils \<Rightarrow> schema \<Rightarrow> named_type option \<Rightarrow> selection list option
     \<Rightarrow> (string \<times> string) list \<Rightarrow> nat option \<Rightarrow> nat list \<Rightarrow> store
     \<Rightarrow> error + (nat list \<times> store)"
  and forEachSelection :: "utils \<Rightarrow> schema \<Rightarrow> named_type option \<Rightarrow> (string \<times> string) list
     \<Rightarrow> selection list \<Rightarrow> nat option \<Rightarrow> nat list \<Rightarrow> store
     \<Rightarrow> error + (nat option \<times> nat list \<times> store)"
  and onSelection :: "utils \<Rightarrow> schema \<Rightarrow> named_type option \<Rightarrow> (string \<times> string) list
     \<Rightarrow> selection \<Rightarrow> nat option \<Rightarrow> nat list \<Rightarrow> store
     \<Rightarrow> error + (nat option \<times> nat list \<times> store)"
where
  "buildInnerModelsArray u s rootObject None primitivesMap appendTo result h =
     Inr (result, h)"
| "buildInnerModelsArray u s rootObject (Some selections) primitivesMap appendTo result h =
     (case forEachSelection u s rootObject primitivesMap selections appendTo result h of
        Inl e \<Rightarrow> Inl e
      | Inr (appendTo', result', h') \<Rightarrow> Inr (result', h'))"
| "forEachSelection u s rootObject primitivesMap [] appendTo result h =
     Inr (appendTo, result, h)"
| "forEachSelection u s rootObject primitivesMap (selectionNode # rest) appendTo result h =
     (case onSelection u s rootObject primitivesMap selectionNode appendTo result h of
        Inl e \<Rightarrow> Inl e
      | Inr (appendTo', result', h') \<Rightarrow>
          forEachSelection u s rootObject primitivesMap rest appendTo' result' h')"
| "onSelection u s rootObject primitivesMap (Field fieldName alias selectionSet)
       appendTo result h =
     (let propertyName = (case alias of Some a \<Rightarrow> a | None \<Rightarrow> fieldName) in
      case getFieldDef u rootObject (Field fieldName alias selectionSet) of
        None \<Rightarrow> Inl (TypeError ''type'')
      | Some rawType \<Rightarrow>
          let actualType = getType s (getNamedType rawType) in
          if isObjectType actualType then
            let modelName = handleNameDuplications u (pascalCase u fieldName) (deref h result);
                model = length h
            in (case buildInnerModelsArray u s actualType selectionSet primitivesMap
                       (Some model) (result @ [model]) (h @ [newModel modelName]) of
                  Inl e \<Rightarrow> Inl e
                | Inr (result', h') \<Rightarrow>
                    let (appendTo', result'', h'') =
                          (case appendTo of
                             None \<Rightarrow> (length h', result' @ [length h'], h' @ [newModel ''Result''])
                           | Some a \<Rightarrow> (a, result', h'))
                    in Inr (Some appendTo', result'',
                            pushField h'' appendTo'
                              \<lparr>fe_name = propertyName, fe_type = modelName,
                               fe_isArray = isArray u rawType,
                               fe_isRequired = isRequired u rawType\<rparr>))
          else
            (case appendTo of
               None \<Rightarrow> Inl (TypeError ''fields'')
             | Some a \<Rightarrow>
                 Inr (Some a, result,
                      pushField h a
                        \<lparr>fe_name = propertyName,
                         fe_type = getTypeName u primitivesMap actualType,
                         fe_isArray = isArray u rawType,
                         fe_isRequired = isRequired u rawType\<rparr>)))"
| "onSelection u s rootObject primitivesMap (FragmentSpread fragmentName)
       appendTo result h =
     (case appendTo of
        None \<Rightarrow> Inl (TypeError ''fragmentsUsed'')
      | Some a \<Rightarrow> Inr (Some a, result, pushFragmentUsed h a (pascalCase u fragmentName)))"
| "onSelection u s rootObject primitivesMap (InlineFragment typeCondition selectionSet)
       appendTo result h =
     (case typeCondition of
        None \<Rightarrow> Inl (TypeError ''kind'')
      | Some onType \<Rightarrow>
          let root = getType s onType;
              name = onType @ ''InlineFragment''
          in (case appendTo of
                None \<Rightarrow> Inl (TypeError ''inlineFragments'')
              | Some a \<Rightarrow>
                  let h1 = pushInlineFragment h a \<lparr>ife_typeName = name, ife_onModel = onType\<rparr>;
                      fragmentModel = length h1
                  in (case buildInnerModelsArray u s root selectionSet primitivesMap
                             (Some fragmentModel)
                             (result @ [fragmentModel]) (h1 @ [newModel name]) of
                        Inl e \<Rightarrow> Inl e
                      | Inr (result', h') \<Rightarrow> Inr (Some a, result', h'))))"
  by pat_completeness auto

termination
  by (relation "measure (\<lambda>x. case x of
         Inl (u, s, r, sels, pm, a, res, h) \<Rightarrow> 2 * size_option (size_list size) sels + 1
       | Inr (Inl (u, s, r, pm, sels, a, res, h)) \<Rightarrow> 2 * size_list size sels + 1
       | Inr (Inr (u, s, r, pm, sel, a, res, h)) \<Rightarrow> 2 * size sel)")
     auto

subsection \<open>Vocabulary for the properties of the builder\<close>

text \<open>The models a call returns: the objects the addresses of \<^verbatim>\<open>result\<close> point to.\<close>

definition modelsOf :: "error + (nat list \<times> store) \<Rightarrow> error + model list" where
  "modelsOf r = (case r of Inl e \<Rightarrow> Inl e | Inr (res, h) \<Rightarrow> Inr (deref h res))"

text \<open>
  The three kinds of selection the callback tells apart on a field: a field whose named
  type is an object type, a field with a definition of any other named type, and a fragment
  spread.
\<close>

definition isObjectField :: "utils \<Rightarrow> schema \<Rightarrow> named_type option \<Rightarrow> selection \<Rightarrow> bool" where
  "isObjectField u s rootObject sel =
     (case sel of
        Field n a ss \<Rightarrow>
          (case getFieldDef u rootObject sel of
             None \<Rightarrow> False
           | Some rawType \<Rightarrow> isObjectType (getType s (getNamedType rawType)))
      | _ \<Rightarrow> False)"

definition isLeafField :: "utils \<Rightarrow> schema \<Rightarrow> named_type option \<Rightarrow> selection \<Rightarrow> bool" where
  "isLeafField u s rootObject sel =
     (case sel of
        Field n a ss \<Rightarrow>
          (case getFieldDef u rootObject sel of
             None \<Rightarrow> False
           | Some rawType \<Rightarrow> \<not> isObjectType (getType s (getNamedType rawType)))
      | _ \<Rightarrow> False)"

definition isFragmentSpread :: "selection \<Rightarrow> bool" where
  "isFragmentSpread sel = (case sel of FragmentSpread n \<Rightarrow> True | _ \<Rightarrow> False)"

text \<open>A call only adds: the store gets longer, \<^verbatim>\<open>result\<close> is extended at its end, and
  no object changes its name.\<close>

definition grows :: "nat list \<Rightarrow> store \<Rightarrow> nat list \<Rightarrow> store \<Rightarrow> bool" where
  "grows res h res' h' =
     (length h \<le> length h' \<and> (\<exists>ys. res' = res @ ys)
      \<and> (\<forall>i<length h. m_name (h' ! i) = m_name (h ! i)))"

text \<open>What a step leaves alone: \<^verbatim>\<open>appendTo\<close> stays the model it was, or becomes a
  model allocated by the step when it was undefined, and no object of the store other than
  \<^verbatim>\<open>appendTo\<close> is changed.\<close>

definition keeps :: "nat option \<Rightarrow> store \<Rightarrow> nat option \<Rightarrow> store \<Rightarrow> bool" where
  "keeps a h a' h' =
     ((case a of
         Some a0 \<Rightarrow> a' = Some a0
       | None \<Rightarrow> (case a' of None \<Rightarrow> True | Some k \<Rightarrow> length h \<le> k))
      \<and> (\<forall>i<length h. Some i \<noteq> a \<longrightarrow> h' ! i = h ! i))"

text \<open>The same outcome in a store that holds the objects \<open>hp\<close> in front: every address
  is moved by the length of \<open>hp\<close>.\<close>

definition relocate2 :: "store \<Rightarrow> error + (nat list \<times> store) \<Rightarrow> error + (nat list \<times> store)" where
  "relocate2 hp r =
     (case r of Inl e \<Rightarrow> Inl e | Inr (res, h) \<Rightarrow> Inr (map ((+) (length hp)) res, hp @ h))"

definition relocate3 :: "store \<Rightarrow> error + (nat option \<times> nat list \<times> store)
     \<Rightarrow> error + (nat option \<times> nat list \<times> store)" where
  "relocate3 hp r =
     (case r of
        Inl e \<Rightarrow> Inl e
      | Inr (a, res, h) \<Rightarrow>
          Inr (map_option ((+) (length hp)) a, map ((+) (length hp)) res, hp @ h))"

section \<open>A sample schema and configuration\<close>

text \<open>
  The schema
  \<^verbatim>\<open>type Query { me: Person }\<close>,
  \<^verbatim>\<open>type Person { name: String, friend: Person, pets: [Animal!]! }\<close>,
  \<^verbatim>\<open>type Cat { name: String, meow: String }\<close>,
  \<^verbatim>\<open>type Dog { name: String, bark: String }\<close>,
  \<^verbatim>\<open>union Animal = Cat | Dog\<close>.
\<close>

definition stringT :: named_type where
  "stringT = \<lparr>nt_name = ''String'', nt_kind = ScalarKind, nt_fields = []\<rparr>"

definition personT :: named_type where
  "personT = \<lparr>nt_name = ''Person'', nt_kind = ObjectKind,
     nt_fields = [(''name'', NamedType ''String''), (''friend'', NamedType ''Person''),
                  (''pets'', NonNullType (ListType (NonNullType (NamedType ''Animal''))))]\<rparr>"

definition catT :: named_type where
  "catT = \<lparr>nt_name = ''Cat'', nt_kind = ObjectKind,
     nt_fields = [(''name'', NamedType ''String''), (''meow'', NamedType ''String'')]\<rparr>"

definition dogT :: named_type where
  "dogT = \<lparr>nt_name = ''Dog'', nt_kind = ObjectKind,
     nt_fields = [(''name'', NamedType ''String''), (''bark'', NamedType ''String'')]\<rparr>"

definition animalT :: named_type where
  "animalT = \<lparr>nt_name = ''Animal'', nt_kind = UnionKind, nt_fields = []\<rparr>"

definition queryT :: named_type where
  "queryT = \<lparr>nt_name = ''Query'', nt_kind = ObjectKind,
     nt_fields = [(''me'', NamedType ''Person'')]\<rparr>"

definition sampleSchema :: schema where
  "sampleSchema =
     \<lparr>typeMap = [(''String'', stringT), (''Person'', personT), (''Cat'', catT),
                 (''Dog'', dogT), (''Animal'', animalT), (''Query'', queryT)],
      queryType = Some queryT, mutationType = None, subscriptionType = None\<rparr>"

text \<open>A naming policy that appends the suffix, a wrapper that shows lists only, and a
  \<^verbatim>\<open>quoteIfNeeded\<close> that joins the parts, in parentheses when there are several.\<close>

definition sampleConvertName :: "string \<Rightarrow> convert_options \<Rightarrow> string" where
  "sampleConvertName n opts = n @ (case suffix opts of None \<Rightarrow> [] | Some x \<Rightarrow> x)"

fun sampleWrap :: "string \<Rightarrow> gql_type \<Rightarrow> string" where
  "sampleWrap body (NamedType n) = body"
| "sampleWrap body (ListType t) = ''Array<'' @ sampleWrap body t @ ''>''"
| "sampleWrap body (NonNullType t) = sampleWrap body t"

definition sampleQuoteIfNeeded :: "string list \<Rightarrow> string \<Rightarrow> string" where
  "sampleQuoteIfNeeded parts sep =
     (case parts of [] \<Rightarrow> [] | [x] \<Rightarrow> x | _ \<Rightarrow> ''('' @ js_join sep parts @ '')'')"

definition sampleConfig :: config where
  "sampleConfig =
     \<lparr>scalars = [], schema_of = sampleSchema, convertName = sampleConvertName,
      addTypename = False, wrapTypeWithModifiers = sampleWrap,
      formatNamedField = (\<lambda>n. n), quoteIfNeeded = sampleQuoteIfNeeded\<rparr>"

text \<open>A \<^verbatim>\<open>getFieldDef\<close> that looks the field name up in the field map of the parent.\<close>

definition lookupFieldDef :: "named_type option \<Rightarrow> selection \<Rightarrow> gql_type option" where
  "lookupFieldDef parent sel =
     (case (parent, sel) of
        (Some pt, Field n a ss) \<Rightarrow> map_of (nt_fields pt) n
      | _ \<Rightarrow> None)"

text \<open>
  Sample helpers for the builder: a \<^verbatim>\<open>pascalCase\<close> that capitalises the first letter, a
  \<^verbatim>\<open>handleNameDuplications\<close> that prefixes underscores until the name is new, the two
  wrapper tests, and a \<^verbatim>\<open>getTypeName\<close> that consults the primitives map.
\<close>

definition samplePascalCase :: "string \<Rightarrow> string" where
  "samplePascalCase n =
     (case n of
        [] \<Rightarrow> []
      | c # cs \<Rightarrow>
          (case map_of (zip ''abcdefghijklmnopqrstuvwxyz'' ''ABCDEFGHIJKLMNOPQRSTUVWXYZ'') c of
             Some C \<Rightarrow> C # cs
           | None \<Rightarrow> c # cs))"

definition sampleHandleNameDuplications :: "string \<Rightarrow> model list \<Rightarrow> string" where
  "sampleHandleNameDuplications n existing =
     (case find (\<lambda>c. c \<notin> set (map m_name existing))
             (map (\<lambda>i. replicate i CHR ''_'' @ n) [0..<Suc (length existing)]) of
        Some c \<Rightarrow> c
      | None \<Rightarrow> n)"

definition sampleIsArray :: "gql_type \<Rightarrow> bool" where
  "sampleIsArray t =
     (case t of ListType x \<Rightarrow> True | NonNullType (ListType x) \<Rightarrow> True | _ \<Rightarrow> False)"

definition sampleIsRequired :: "gql_type \<Rightarrow> bool" where
  "sampleIsRequired t = (case t of NonNullType x \<Rightarrow> True | _ \<Rightarrow> False)"

definition sampleGetTypeName :: "(string \<times> string) list \<Rightarrow> named_type option \<Rightarrow> string" where
  "sampleGetTypeName pm t =
     (case t of
        None \<Rightarrow> []
      | Some nt \<Rightarrow> (case map_of pm (nt_name nt) of Some x \<Rightarrow> x | None \<Rightarrow> nt_name nt))"

definition sampleUtils :: utils where
  "sampleUtils =
     \<lparr>getFieldDef = lookupFieldDef, handleNameDuplications = sampleHandleNameDuplications,
      pascalCase = samplePascalCase, isArray = sampleIsArray, isRequired = sampleIsRequired,
      getTypeName = sampleGetTypeName\<rparr>"

text \<open>
  A schema in which an object type is named \<^verbatim>\<open>constructor\<close>, a name GraphQL allows:
  \<^verbatim>\<open>type constructor { name: String }\<close>, \<^verbatim>\<open>type Cat { name: String, meow: String }\<close>,
  \<^verbatim>\<open>union Animal = constructor | Cat\<close>.
\<close>

definition constructorT :: named_type where
  "constructorT = \<lparr>nt_name = ''constructor'', nt_kind = ObjectKind,
     nt_fields = [(''name'', NamedType ''String'')]\<rparr>"

definition constructorSchema :: schema where
  "constructorSchema =
     \<lparr>typeMap = [(''String'', stringT), (''constructor'', constructorT), (''Cat'', catT),
                 (''Animal'', animalT)],
      queryType = None, mutationType = None, subscriptionType = None\<rparr>"

section \<open>Properties of the Selection Collector\<close>

subsection \<open>Failure of one selection fails the read\<close>

lemma collectSelections_member_fails:
  assumes "sel \<in> set sels"
    and "\<And>b. fst (collectSelection cfg parent sel b) \<noteq> None"
  shows "fst (collectSelections cfg parent sels b) \<noteq> None"
  using assms(1)
proof (induction sels arbitrary: b)
  case Nil
  then show ?case by simp
next
  case (Cons x xs)
  show ?case
  proof (cases "collectSelection cfg parent x b")
    case (Pair r b')
    show ?thesis
    proof (cases r)
      case None
      with Pair assms(2)[of b] have "x \<noteq> sel" by auto
      with Cons.prems have "sel \<in> set xs" by auto
      from Cons.IH[OF this, of b'] Pair None show ?thesis by simp
    next
      case (Some e)
      with Pair show ?thesis by simp
    qed
  qed
qed

lemma string_from_fails_if_collect_fails:
  assumes "fst (collectSelections cfg parent sels b) \<noteq> None"
  shows "\<exists>e. fst (string_from cfg parent (Some sels) b) = Inl e"
proof (cases sels)
  case Nil
  with assms show ?thesis by simp
next
  case (Cons x xs)
  obtain r b' where rb: "collectSelections cfg parent (x # xs) b = (r, b')"
    by (cases "collectSelections cfg parent (x # xs) b")
  with assms Cons obtain e where "r = Some e" by auto
  with rb Cons show ?thesis by simp
qed

text \<open>
  Claim C1, as amended. On a parent that is an object or an interface type, a selection
  set containing a field other than \<^verbatim>\<open>__typename\<close> whose name the parent's field map
  does not define (and that is not a meta-field of a root type) makes the read of
  \<^verbatim>\<open>string\<close> end in an exception: no text is returned.
\<close>

theorem unknown_field_on_object_or_interface_fails:
  assumes "parent = Some pt"
    and "nt_kind pt = ObjectKind \<or> nt_kind pt = InterfaceKind"
    and "Field name al ss \<in> set sels"
    and "name \<noteq> ''__typename''"
    and "\<not> (isRootType pt (schema_of cfg) \<and> isMetadataFieldName name)"
    and "map_of (nt_fields pt) name = None"
  shows "\<exists>e. fst (string_from cfg parent (Some sels) b) = Inl e"
proof -
  have "fst (collectSelection cfg parent (Field name al ss) b0) \<noteq> None" for b0
    using assms(1,2,4,5,6)
    by (auto simp: isObjectType_def isInterfaceType_def schemaField_def)
  from collectSelections_member_fails[OF assms(3) this]
  show ?thesis by (rule string_from_fails_if_collect_fails)
qed

theorem unknown_field_on_object_or_interface_fails_witness:
  "\<exists>e. fst (string_from sampleConfig (Some personT)
              (Some [Field ''name'' None None, Field ''nope'' None None]) emptyBuckets) = Inl e"
  by (rule unknown_field_on_object_or_interface_fails
        [where pt = personT and name = "''nope''" and al = None and ss = None])
     (simp_all add: personT_def isMetadataFieldName_def)

text \<open>
  The claim as the specification states it fails on a union parent: the union
  \<^verbatim>\<open>Animal\<close> defines no field \<^verbatim>\<open>nope\<close>, and the read returns a text (the empty
  one) without any exception, because \<^verbatim>\<open>_collectField\<close> only looks fields up on
  object and interface parents.
\<close>

theorem unknown_field_on_union_is_skipped:
  "map_of (nt_fields animalT) ''nope'' = None \<and> \<not> isMetadataFieldName ''nope'' \<and>
   fst (get_string (new_sso sampleConfig (Some animalT) (Some [Field ''nope'' None None])))
     = Inr []"
  by (simp add: animalT_def isMetadataFieldName_def get_string_def new_sso_def
      isObjectType_def isInterfaceType_def composeFields_def typeNamePart_def sampleConfig_def
      emptyBuckets_def buildPrimitiveFields_def buildAliasedPrimitiveFields_def
      buildLinkFields_def buildInlineFragments_def buildFragmentSpread_def
      mergeAllFields_def sampleQuoteIfNeeded_def)

subsection \<open>Inline fragments on a type the schema does not have\<close>

lemma string_from_undefined_parent:
  "\<exists>e. fst (string_from cfg None (Some (x # xs)) b) = Inl e"
  by (cases "collectSelections cfg None (x # xs) b") (auto split: option.splits)

text \<open>
  Claim C4, as amended. When the type condition of an inline fragment names a type the
  schema does not have and the nested selection set of the fragment is not empty (as it is
  in every parsed document), the read of \<^verbatim>\<open>string\<close> ends in an exception and returns
  no text.
\<close>

theorem inline_fragment_on_missing_type_fails_when_nonempty:
  assumes "InlineFragment (Some onType) (Some (x # xs)) \<in> set sels"
    and "getType (schema_of cfg) onType = None"
  shows "\<exists>e. fst (string_from cfg parent (Some sels) b) = Inl e"
proof -
  obtain e where e: "fst (string_from cfg None (Some (x # xs)) emptyBuckets) = Inl e"
    using string_from_undefined_parent by blast
  have "fst (collectSelection cfg parent (InlineFragment (Some onType) (Some (x # xs))) b0) \<noteq> None"
    for b0
    using e assms(2) by (simp add: Let_def split: js_prop.splits)
  from collectSelections_member_fails[OF assms(1) this]
  show ?thesis by (rule string_from_fails_if_collect_fails)
qed

theorem inline_fragment_on_missing_type_fails_when_nonempty_witness:
  "\<exists>e. fst (string_from sampleConfig (Some personT)
            (Some [InlineFragment (Some ''Missing'') (Some [Field ''name'' None None])])
            emptyBuckets) = Inl e"
  by (rule inline_fragment_on_missing_type_fails_when_nonempty[where onType = "''Missing''" and x = "Field ''name'' None None" and xs = "[]"])
     (simp_all add: getType_def sampleConfig_def sampleSchema_def)

text \<open>
  The claim as the specification states it fails, because the type condition is never
  checked. \<^verbatim>\<open>buildInnerModelsArray\<close> goes on with the unresolved type and returns its
  models for \<^verbatim>\<open>{ me { ... on Missing { ...personFields } } }\<close>, among them a model
  \<^verbatim>\<open>MissingInlineFragment\<close>. The collector, for \<^verbatim>\<open>{ ... on Missing { name } }\<close>, has
  already entered the key \<^verbatim>\<open>Missing\<close> in its accumulator when the nested collector
  fails on the name of its undefined parent; and when the nested selection set is empty, it
  returns a text.
\<close>

theorem missing_type_condition_is_not_checked:
  "getType sampleSchema ''Missing'' = None
   \<and> modelsOf (buildInnerModelsArray sampleUtils sampleSchema (Some queryT)
        (Some [Field ''me'' None
           (Some [InlineFragment (Some ''Missing'') (Some [FragmentSpread ''personFields''])])])
        [] None [] [])
     = Inr [\<lparr>m_name = ''Me'', m_fields = [], m_fragmentsUsed = [],
              m_inlineFragments = [\<lparr>ife_typeName = ''MissingInlineFragment'',
                                     ife_onModel = ''Missing''\<rparr>],
              m_usingFragments = None, m_hasInlineFragments = Some True\<rparr>,
            \<lparr>m_name = ''MissingInlineFragment'', m_fields = [],
              m_fragmentsUsed = [''PersonFields''], m_inlineFragments = [],
              m_usingFragments = Some True, m_hasInlineFragments = None\<rparr>,
            \<lparr>m_name = ''Result'',
              m_fields = [\<lparr>fe_name = ''me'', fe_type = ''Me'', fe_isArray = False,
                           fe_isRequired = False\<rparr>],
              m_fragmentsUsed = [], m_inlineFragments = [],
              m_usingFragments = None, m_hasInlineFragments = None\<rparr>]
   \<and> string_from sampleConfig (Some personT)
        (Some [InlineFragment (Some ''Missing'') (Some [Field ''name'' None None])]) emptyBuckets
     = (Inl (TypeError ''name''), emptyBuckets\<lparr>inlineFragments := [(''Missing'', [])]\<rparr>)
   \<and> fst (get_string (new_sso sampleConfig (Some personT)
          (Some [InlineFragment (Some ''Missing'') (Some [])]))) = Inr ''()''"
  by code_simp

subsection \<open>Inline fragments accumulate per type condition\<close>

lemma accumulated_Nil [simp]: "accumulated old [] = old"
  by (simp add: accumulated_def split: option.splits)

lemma accumulated_append:
  "accumulated (accumulated old xs) ys = accumulated old (xs @ ys)"
  by (auto simp: accumulated_def split: option.splits)

lemma bodiesFor_append: "bodiesFor k (xs @ ys) = bodiesFor k xs @ bodiesFor k ys"
  by (simp add: bodiesFor_def)

lemma map_of_push_existing:
  "map_of (map (\<lambda>(k, v). if k = onType then (k, v @ [body]) else (k, v)) frags) k' =
     (if k' = onType then map_option (\<lambda>v. v @ [body]) (map_of frags k') else map_of frags k')"
  by (induction frags) auto

lemma keys_push_existing:
  "map fst (map (\<lambda>(k, v). if k = onType then (k, v @ [body]) else (k, v)) frags) = map fst frags"
  by (induction frags) auto

lemma collectSelection_inlineFragments:
  assumes "collectSelection cfg parent sel b = (None, b')"
    and "distinct (map fst (inlineFragments b))"
  shows "distinct (map fst (inlineFragments b')) \<and>
         map_of (inlineFragments b') k =
           accumulated (map_of (inlineFragments b) k) (bodiesFor k (branchOf cfg sel))"
proof (cases sel)
  case (Field n a ss)
  with assms show ?thesis
    by (auto simp: branchOf_def bodiesFor_def Let_def
             split: if_splits option.splits sum.splits)
next
  case (FragmentSpread n)
  with assms show ?thesis by (auto simp: branchOf_def bodiesFor_def)
next
  case (InlineFragment tc ss)
  with assms(1) obtain onType where tc: "tc = Some onType"
    by (cases tc) auto
  let ?nested = "fst (string_from cfg (getType (schema_of cfg) onType) ss emptyBuckets)"
  from assms(1) InlineFragment tc obtain body where body: "?nested = Inr body"
    by (cases ?nested) (auto simp: Let_def split: js_prop.splits)
  have br: "branchOf cfg sel = [(onType, body)]"
    using InlineFragment tc body by (simp add: branchOf_def)
  show ?thesis
  proof (cases "js_get (inlineFragments b) onType")
    case (Own bodies)
    then have old: "map_of (inlineFragments b) onType = Some bodies"
      by (auto simp: js_get_def split: option.splits if_splits)
    from assms(1) InlineFragment tc body Own
    have b': "b' = b\<lparr>inlineFragments :=
                 map (\<lambda>(k, v). if k = onType then (k, v @ [body]) else (k, v)) (inlineFragments b)\<rparr>"
      by (simp add: Let_def)
    have "distinct (map fst (inlineFragments b'))"
      using assms(2) by (simp add: b' keys_push_existing del: map_map)
    moreover have "map_of (inlineFragments b') k =
           accumulated (map_of (inlineFragments b) k) (bodiesFor k (branchOf cfg sel))"
      using old
      by (auto simp: b' br map_of_push_existing bodiesFor_def accumulated_def
               split: option.splits)
    ultimately show ?thesis by simp
  next
    case Inherited
    with assms(1) InlineFragment tc body show ?thesis by (simp add: Let_def)
  next
    case Undefined
    then have old: "map_of (inlineFragments b) onType = None"
      by (auto simp: js_get_def split: option.splits if_splits)
    then have notin: "onType \<notin> fst ` set (inlineFragments b)"
      by (simp add: map_of_eq_None_iff)
    from assms(1) InlineFragment tc body Undefined
    have b': "b' = b\<lparr>inlineFragments := inlineFragments b @ [(onType, [body])]\<rparr>"
      by (simp add: Let_def)
    show ?thesis
      using assms(2) old notin
      by (auto simp: b' br bodiesFor_def accumulated_def map_add_def split: option.splits)
  qed
qed

lemma collectSelections_inlineFragments:
  assumes "collectSelections cfg parent sels b = (None, b')"
    and "distinct (map fst (inlineFragments b))"
  shows "distinct (map fst (inlineFragments b')) \<and>
         (\<forall>k. map_of (inlineFragments b') k =
           accumulated (map_of (inlineFragments b) k) (bodiesFor k (branches cfg sels)))"
  using assms
proof (induction sels arbitrary: b)
  case Nil
  then show ?case by (simp add: branches_def bodiesFor_def)
next
  case (Cons x xs)
  obtain r b1 where step: "collectSelection cfg parent x b = (r, b1)"
    by (cases "collectSelection cfg parent x b")
  with Cons.prems(1) have r: "r = None" and rest: "collectSelections cfg parent xs b1 = (None, b')"
    by (auto split: option.splits)
  have s1: "distinct (map fst (inlineFragments b1))"
    and s2: "map_of (inlineFragments b1) k =
           accumulated (map_of (inlineFragments b) k) (bodiesFor k (branchOf cfg x))" for k
    using collectSelection_inlineFragments[OF step[unfolded r] Cons.prems(2)] by auto
  from Cons.IH[OF rest s1]
  have i1: "distinct (map fst (inlineFragments b'))"
    and i2: "map_of (inlineFragments b') k =
           accumulated (map_of (inlineFragments b1) k) (bodiesFor k (branches cfg xs))" for k
    by auto
  have "branches cfg (x # xs) = branchOf cfg x @ branches cfg xs"
    by (simp add: branches_def)
  then show ?case
    using i1 i2 s2 by (simp add: accumulated_append bodiesFor_append)
qed

text \<open>
  For a selection list that is collected without an exception into fresh accumulators, the
  keys of \<^verbatim>\<open>_inlineFragments\<close> are distinct, and a type condition \<open>k\<close> holds exactly
  the bodies of the inline fragments on \<open>k\<close>, all of them and in order.
\<close>

lemma inlineFragments_after_collect:
  assumes "collectSelections cfg parent sels emptyBuckets = (None, b)"
  shows "distinct (map fst (inlineFragments b))
    \<and> map_of (inlineFragments b) k =
        (if bodiesFor k (branches cfg sels) = [] then None
         else Some (bodiesFor k (branches cfg sels)))"
proof -
  have "distinct (map fst (inlineFragments emptyBuckets))"
    "map_of (inlineFragments emptyBuckets) k = None"
    by (simp_all add: emptyBuckets_def)
  with collectSelections_inlineFragments[OF assms] show ?thesis
    by (auto simp: accumulated_def)
qed

text \<open>
  Claim C5, evaluated where it fails. The accumulator \<^verbatim>\<open>_inlineFragments\<close> is an object
  literal used as a map, so a type condition named like a property of
  \<^verbatim>\<open>Object.prototype\<close> is found there before any branch has been stored. Two inline
  fragments on the object type \<^verbatim>\<open>constructor\<close> do not accumulate under one key: the read
  ends in the \<^verbatim>\<open>TypeError\<close> of calling \<^verbatim>\<open>push\<close> on the inherited property. The
  same two fragments on \<^verbatim>\<open>Cat\<close> are combined as the claim says.
\<close>

theorem inline_fragments_on_prototype_name_fail:
  "getType constructorSchema ''constructor'' = Some constructorT
   \<and> fst (get_string (new_sso (sampleConfig\<lparr>schema_of := constructorSchema\<rparr>) (Some animalT)
        (Some [InlineFragment (Some ''constructor'') (Some [Field ''name'' None None]),
               InlineFragment (Some ''constructor'') (Some [Field ''name'' (Some ''n'') None])])))
     = Inl (TypeError ''push'')
   \<and> fst (get_string (new_sso (sampleConfig\<lparr>schema_of := constructorSchema\<rparr>) (Some animalT)
        (Some [InlineFragment (Some ''Cat'') (Some [Field ''name'' None None]),
               InlineFragment (Some ''Cat'') (Some [Field ''name'' (Some ''n'') None])])))
     = Inr (''(Pick<Cat, '' @ quoted ''name'' @ ''> & { n: Cat['' @ quoted ''name'' @ ''] })'')"
  by code_simp

subsection \<open>The \<^verbatim>\<open>__typename\<close> field\<close>

lemma collectSelection_queried:
  "collectSelection cfg parent sel b = (None, b') \<Longrightarrow>
   queriedForTypename b' = (queriedForTypename b \<or> selectsTypename [sel])"
  by (cases sel)
     (auto simp: selectsTypename_def Let_def
           split: if_splits option.splits sum.splits js_prop.splits)

lemma collectSelections_queried:
  "collectSelections cfg parent sels b = (None, b') \<Longrightarrow>
   queriedForTypename b' = (queriedForTypename b \<or> selectsTypename sels)"
proof (induction sels arbitrary: b)
  case Nil
  then show ?case by (simp add: selectsTypename_def)
next
  case (Cons x xs)
  obtain r b1 where step: "collectSelection cfg parent x b = (r, b1)"
    by (cases "collectSelection cfg parent x b")
  with Cons.prems have r: "r = None" and rest: "collectSelections cfg parent xs b1 = (None, b')"
    by (auto split: option.splits)
  from collectSelection_queried[OF step[unfolded r]] Cons.IH[OF rest]
  show ?case by (auto simp: selectsTypename_def)
qed

text \<open>
  Claim C6. The text a fresh instance returns for a selection set that is not empty is
  \<^verbatim>\<open>quoteIfNeeded\<close> of its parts joined by \<^verbatim>\<open>&\<close>, and the parts are: no record for
  \<^verbatim>\<open>__typename\<close> on a union or an interface parent; otherwise, first, the record with the
  required field \<^verbatim>\<open>__typename: 'T'\<close> when the selection set selects \<^verbatim>\<open>__typename\<close>;
  otherwise, first, the record with the optional field \<^verbatim>\<open>__typename?: 'T'\<close> when typename
  injection is enabled; otherwise no such record; then the other parts. (An empty selection
  set synthesizes no body at all, see claim C8.)
\<close>

theorem typename_field_optional_unless_selected:
  assumes "string_from cfg (Some pt) (Some (x # xs)) emptyBuckets = (Inr t, b)"
  shows "t = quoteIfNeeded cfg (typenameRecord cfg pt (x # xs) @ otherParts cfg pt b) '' & ''"
proof -
  from assms have c: "collectSelections cfg (Some pt) (x # xs) emptyBuckets = (None, b)"
    and t: "t = composeFields cfg pt b"
    by (auto split: prod.splits option.splits)
  from collectSelections_queried[OF c]
  have q: "queriedForTypename b = selectsTypename (x # xs)" by (simp add: emptyBuckets_def)
  have "nonEmptyParts (typeNamePart cfg pt b # rest) = typenameRecord cfg pt (x # xs) @ nonEmptyParts rest"
    for rest
    by (simp add: typeNamePart_def buildTypeNameField_def q isUnionType_def isInterfaceType_def
          typenameRecord_def)
  then show ?thesis
    by (simp add: t composeFields_def otherParts_def mergeAllFields_def Let_def)
qed

theorem typename_field_optional_unless_selected_witness:
  "string_from (sampleConfig\<lparr>addTypename := True\<rparr>) (Some personT)
       (Some [Field ''name'' None None]) emptyBuckets
     = (Inr (''({ __typename?: '' @ quoted ''Person'' @ '' } & Pick<Person, ''
                        @ quoted ''name'' @ ''>)''),
        emptyBuckets\<lparr>primitiveFields := [''name'']\<rparr>)
   \<and> ''({ __typename?: '' @ quoted ''Person'' @ '' } & Pick<Person, '' @ quoted ''name'' @ ''>)''
     = quoteIfNeeded (sampleConfig\<lparr>addTypename := True\<rparr>)
         (typenameRecord (sampleConfig\<lparr>addTypename := True\<rparr>) personT [Field ''name'' None None]
          @ otherParts (sampleConfig\<lparr>addTypename := True\<rparr>) personT
              (emptyBuckets\<lparr>primitiveFields := [''name'']\<rparr>)) '' & ''
   \<and> typenameRecord (sampleConfig\<lparr>addTypename := True\<rparr>) personT [Field ''name'' None None]
     = [''{ __typename?: '' @ quoted ''Person'' @ '' }'']"
proof -
  let ?c = "sampleConfig\<lparr>addTypename := True\<rparr>"
  have h: "string_from ?c (Some personT) (Some [Field ''name'' None None]) emptyBuckets
     = (Inr (''({ __typename?: '' @ quoted ''Person'' @ '' } & Pick<Person, ''
                        @ quoted ''name'' @ ''>)''),
        emptyBuckets\<lparr>primitiveFields := [''name'']\<rparr>)"
    by code_simp
  have tr: "typenameRecord ?c personT [Field ''name'' None None]
     = [''{ __typename?: '' @ quoted ''Person'' @ '' }'']"
    by code_simp
  from h typename_field_optional_unless_selected[OF h] tr show ?thesis by (simp only: simp_thms)
qed

subsection \<open>Reading \<^verbatim>\<open>string\<close> twice\<close>

lemma collectSelections_append:
  "collectSelections cfg parent (xs @ ys) b =
     (case collectSelections cfg parent xs b of
        (Some e, b') \<Rightarrow> (Some e, b')
      | (None, b') \<Rightarrow> collectSelections cfg parent ys b')"
  by (induction xs arbitrary: b) (auto split: prod.splits option.splits)

text \<open>
  Claim C9, as amended. After a successful read the accumulators stay filled, so a second
  read of the same instance collects the selections once more on top of them: it returns
  what a read of the instance returns when its selection list is repeated twice. The two
  reads agree when the selection set is absent or empty.
\<close>

theorem second_read_collects_again:
  assumes "get_string this = (Inr t, this')"
  shows "fst (get_string this') =
         fst (get_string (this\<lparr>sso_selectionSet :=
                map_option (\<lambda>sels. sels @ sels) (sso_selectionSet this)\<rparr>))"
proof (cases "sso_selectionSet this")
  case None
  with assms show ?thesis by (auto simp: get_string_def)
next
  case (Some sels)
  show ?thesis
  proof (cases sels)
    case Nil
    with Some assms show ?thesis by (auto simp: get_string_def)
  next
    case (Cons x xs)
    obtain r b1 where c1:
      "collectSelections (sso_config this) (parentSchemaType this) (x # xs) (sso_buckets this) = (r, b1)"
      by (cases "collectSelections (sso_config this) (parentSchemaType this) (x # xs) (sso_buckets this)")
    with assms Some Cons have r: "r = None" and this': "this' = this\<lparr>sso_buckets := b1\<rparr>"
      by (auto simp: get_string_def split: option.splits)
    have "collectSelections (sso_config this) (parentSchemaType this) ((x # xs) @ (x # xs)) (sso_buckets this)
          = collectSelections (sso_config this) (parentSchemaType this) (x # xs) b1"
      using c1 r by (simp only: collectSelections_append) simp
    then have "collectSelections (sso_config this) (parentSchemaType this) (x # (xs @ x # xs)) (sso_buckets this)
          = collectSelections (sso_config this) (parentSchemaType this) (x # xs) b1"
      by simp
    then show ?thesis
      using Some Cons this'
      by (simp add: get_string_def split: prod.splits option.splits)
  qed
qed

theorem second_read_collects_again_witness:
  "get_string (new_sso sampleConfig (Some personT) (Some [Field ''name'' None None]))
     = (Inr (''Pick<Person, '' @ quoted ''name'' @ ''>''),
        snd (get_string (new_sso sampleConfig (Some personT) (Some [Field ''name'' None None]))))
   \<and> fst (get_string (snd (get_string
          (new_sso sampleConfig (Some personT) (Some [Field ''name'' None None]))))) =
   fst (get_string ((new_sso sampleConfig (Some personT) (Some [Field ''name'' None None]))
          \<lparr>sso_selectionSet := map_option (\<lambda>sels. sels @ sels)
             (sso_selectionSet (new_sso sampleConfig (Some personT)
                (Some [Field ''name'' None None])))\<rparr>))"
proof -
  let ?i = "new_sso sampleConfig (Some personT) (Some [Field ''name'' None None])"
  have "fst (get_string ?i) = Inr (''Pick<Person, '' @ quoted ''name'' @ ''>'')"
    by code_simp
  then have h: "get_string ?i = (Inr (''Pick<Person, '' @ quoted ''name'' @ ''>''), snd (get_string ?i))"
    by (simp add: prod_eq_iff)
  from h second_read_collects_again[OF h] show ?thesis by blast
qed

text \<open>
  The claim as stated fails: the first read of \<^verbatim>\<open>{ name }\<close> on \<^verbatim>\<open>Person\<close>
  returns a projection of \<^verbatim>\<open>name\<close>, the second read of the same instance a projection
  that lists \<^verbatim>\<open>name\<close> twice.
\<close>

theorem second_read_differs:
  "fst (get_string (new_sso sampleConfig (Some personT) (Some [Field ''name'' None None])))
     = Inr (''Pick<Person, '' @ quoted ''name'' @ ''>'') \<and>
   fst (get_string (snd (get_string
          (new_sso sampleConfig (Some personT) (Some [Field ''name'' None None])))))
     = Inr (''Pick<Person, '' @ quoted ''name'' @ '' | '' @ quoted ''name'' @ ''>'')"
  by code_simp

subsection \<open>Link fields of the collector\<close>

text \<open>
  Claim C2, the counterexamples. In the collector, for the link field \<^verbatim>\<open>me\<close> the
  accumulator stores, and the text shows, the body synthesized for the nested selection
  set itself: the text that a collector on \<^verbatim>\<open>Person\<close> returns for \<^verbatim>\<open>{ name }\<close>, not
  the name of a declaration. In \<^verbatim>\<open>buildInnerModelsArray\<close>, the link field \<^verbatim>\<open>pets\<close>
  of the union type \<^verbatim>\<open>Animal\<close> in
  \<^verbatim>\<open>{ me { pets { ... on Cat { meow } } } }\<close> gets no sub-declaration: the returned models
  are \<^verbatim>\<open>Me\<close> and \<^verbatim>\<open>Result\<close>, and the type of the entry for \<^verbatim>\<open>pets\<close> is what
  \<^verbatim>\<open>getTypeName\<close> returns, which names none of them.
\<close>

theorem link_field_embeds_body:
  "fst (get_string (new_sso sampleConfig (Some personT) (Some [Field ''name'' None None])))
     = Inr (''Pick<Person, '' @ quoted ''name'' @ ''>'')
   \<and> linksFields (sso_buckets (snd (get_string (new_sso sampleConfig (Some queryT)
        (Some [Field ''me'' None (Some [Field ''name'' None None])])))))
     = [\<lparr>lf_alias = None, lf_name = ''me'', lf_type = ''Person'',
         lf_selectionSet = ''Pick<Person, '' @ quoted ''name'' @ ''>''\<rparr>]
   \<and> fst (get_string (new_sso sampleConfig (Some queryT)
        (Some [Field ''me'' None (Some [Field ''name'' None None])])))
     = Inr (''{ me: Pick<Person, '' @ quoted ''name'' @ ''> }'')
   \<and> modelsOf (buildInnerModelsArray sampleUtils sampleSchema (Some queryT)
        (Some [Field ''me'' None (Some [Field ''pets'' None
           (Some [InlineFragment (Some ''Cat'') (Some [Field ''meow'' None None])])])])
        [] None [] [])
     = Inr [\<lparr>m_name = ''Me'',
              m_fields = [\<lparr>fe_name = ''pets'', fe_type = ''Animal'', fe_isArray = True,
                           fe_isRequired = True\<rparr>],
              m_fragmentsUsed = [], m_inlineFragments = [],
              m_usingFragments = None, m_hasInlineFragments = None\<rparr>,
            \<lparr>m_name = ''Result'',
              m_fields = [\<lparr>fe_name = ''me'', fe_type = ''Me'', fe_isArray = False,
                           fe_isRequired = False\<rparr>],
              m_fragmentsUsed = [], m_inlineFragments = [],
              m_usingFragments = None, m_hasInlineFragments = None\<rparr>]"
  by code_simp

subsection \<open>Empty selection sets\<close>

text \<open>
  Claim C8. A selection set that is absent or has no selections yields the empty text from
  the getter \<^verbatim>\<open>string\<close>, whatever the parent type and the accumulators, and leaves the
  instance as it was; \<^verbatim>\<open>buildInnerModelsArray\<close> returns \<^verbatim>\<open>result\<close> untouched. Neither
  raises an exception.
\<close>

theorem empty_selection_yields_empty_body:
  "string_from cfg parent None b = (Inr [], b)
   \<and> string_from cfg parent (Some []) b = (Inr [], b)
   \<and> get_string (new_sso cfg parent None) = (Inr [], new_sso cfg parent None)
   \<and> get_string (new_sso cfg parent (Some [])) = (Inr [], new_sso cfg parent (Some []))
   \<and> buildInnerModelsArray u s root None pm a res h = Inr (res, h)
   \<and> buildInnerModelsArray u s root (Some []) pm a res h = Inr (res, h)"
  by (simp add: get_string_def new_sso_def)

section \<open>Properties of buildInnerModelsArray\<close>

subsection \<open>The store only grows\<close>

lemma length_pushField [simp]: "length (pushField h a f) = length h"
  by (simp add: pushField_def)
lemma length_pushFragmentUsed [simp]: "length (pushFragmentUsed h a n) = length h"
  by (simp add: pushFragmentUsed_def Let_def)
lemma length_pushInlineFragment [simp]: "length (pushInlineFragment h a e) = length h"
  by (simp add: pushInlineFragment_def Let_def)

lemma name_pushField [simp]: "m_name (pushField h a f ! i) = m_name (h ! i)"
  by (cases "a < length h") (auto simp: pushField_def nth_list_update list_update_beyond)
lemma name_pushFragmentUsed [simp]: "m_name (pushFragmentUsed h a n ! i) = m_name (h ! i)"
  by (cases "a < length h") (auto simp: pushFragmentUsed_def Let_def nth_list_update list_update_beyond)
lemma name_pushInlineFragment [simp]: "m_name (pushInlineFragment h a e ! i) = m_name (h ! i)"
  by (cases "a < length h") (auto simp: pushInlineFragment_def Let_def nth_list_update list_update_beyond)

lemma m_name_newModel [simp]: "m_name (newModel n) = n"
  by (simp add: newModel_def)

lemma grows_refl [simp]: "grows res h res h"
  by (simp add: grows_def)

lemma grows_trans: "grows r1 h1 r2 h2 \<Longrightarrow> grows r2 h2 r3 h3 \<Longrightarrow> grows r1 h1 r3 h3"
  by (auto simp: grows_def)

lemma grows_alloc: "grows res h (res @ [a]) (h @ [m])"
  by (auto simp: grows_def nth_append)

lemma grows_pushField [simp]: "grows res h res (pushField h a f)"
  by (simp add: grows_def)
lemma grows_pushFragmentUsed [simp]: "grows res h res (pushFragmentUsed h a f)"
  by (simp add: grows_def)
lemma grows_pushInlineFragment [simp]: "grows res h res (pushInlineFragment h a f)"
  by (simp add: grows_def)

lemma builder_grows:
  "buildInnerModelsArray u s root sels pm a res h = Inr (res', h') \<Longrightarrow> grows res h res' h'"
  "forEachSelection u s root pm sl a res h = Inr (a', res', h') \<Longrightarrow> grows res h res' h'"
  "onSelection u s root pm sel a res h = Inr (a', res', h') \<Longrightarrow> grows res h res' h'"
proof (induction u s root sels pm a res h and u s root pm sl a res h and u s root pm sel a res h
       arbitrary: res' h' and a' res' h' and a' res' h'
       rule: buildInnerModelsArray_forEachSelection_onSelection.induct)
  case (1 u s rootObject primitivesMap appendTo result h)
  then show ?case by simp
next
  case (2 u s rootObject selections primitivesMap appendTo result h)
  then show ?case by (auto split: sum.splits)
next
  case (3 u s rootObject primitivesMap appendTo result h)
  then show ?case by simp
next
  case (4 u s rootObject primitivesMap selectionNode rest appendTo result h)
  from "4.prems" obtain a1 r1 h1 where
    step: "onSelection u s rootObject primitivesMap selectionNode appendTo result h = Inr (a1, r1, h1)"
    and rest: "forEachSelection u s rootObject primitivesMap rest a1 r1 h1 = Inr (a', res', h')"
    by (auto split: sum.splits)
  from "4.IH"(1)[OF step] "4.IH"(2)[OF step refl refl rest]
  show ?case by (rule grows_trans)
next
  case (5 u s rootObject primitivesMap fieldName al selectionSet appendTo result h)
  show ?case
  proof (cases "getFieldDef u rootObject (Field fieldName al selectionSet)")
    case None
    with "5.prems" show ?thesis by simp
  next
    case (Some rawType)
    show ?thesis
    proof (cases "isObjectType (getType s (getNamedType rawType))")
      case False
      with "5.prems" Some show ?thesis by (auto simp: Let_def split: option.splits)
    next
      case True
      let ?mn = "handleNameDuplications u (pascalCase u fieldName) (deref h result)"
      from "5.prems" Some True obtain r1 h1 where
        inner: "buildInnerModelsArray u s (getType s (getNamedType rawType)) selectionSet
                  primitivesMap (Some (length h)) (result @ [length h]) (h @ [newModel ?mn])
                = Inr (r1, h1)"
        by (auto simp: Let_def split: sum.splits)
      have g1: "grows (result @ [length h]) (h @ [newModel ?mn]) r1 h1"
        using "5.IH"[OF refl Some refl True refl refl inner] .
      have g0: "grows result h r1 h1"
        using grows_trans[OF grows_alloc g1] .
      show ?thesis
      proof (cases appendTo)
        case None
        with "5.prems" Some True inner
        have "res' = r1 @ [length h1]" "h' = pushField (h1 @ [newModel ''Result'']) (length h1)
               \<lparr>fe_name = (case al of Some a \<Rightarrow> a | None \<Rightarrow> fieldName), fe_type = ?mn,
                fe_isArray = isArray u rawType, fe_isRequired = isRequired u rawType\<rparr>"
          by (auto simp: Let_def)
        then have "grows r1 h1 res' h'"
          by (auto simp: grows_def nth_append)
        with g0 show ?thesis by (rule grows_trans)
      next
        case (Some a)
        with "5.prems" \<open>getFieldDef u rootObject (Field fieldName al selectionSet) = Some rawType\<close>
          True inner
        have "res' = r1" "h' = pushField h1 a
               \<lparr>fe_name = (case al of Some a \<Rightarrow> a | None \<Rightarrow> fieldName), fe_type = ?mn,
                fe_isArray = isArray u rawType, fe_isRequired = isRequired u rawType\<rparr>"
          by (auto simp: Let_def)
        then have "grows r1 h1 res' h'" by simp
        with g0 show ?thesis by (rule grows_trans)
      qed
    qed
  qed
next
  case (6 u s rootObject primitivesMap fragmentName appendTo result h)
  then show ?case by (auto split: option.splits)
next
  case (7 u s rootObject primitivesMap typeCondition selectionSet appendTo result h)
  from "7.prems" obtain onType a where tc: "typeCondition = Some onType" and a: "appendTo = Some a"
    by (auto simp: Let_def split: option.splits)
  let ?h1 = "pushInlineFragment h a
               \<lparr>ife_typeName = onType @ ''InlineFragment'', ife_onModel = onType\<rparr>"
  from "7.prems" tc a have
    inner: "buildInnerModelsArray u s (getType s onType) selectionSet primitivesMap
              (Some (length ?h1)) (result @ [length ?h1])
              (?h1 @ [newModel (onType @ ''InlineFragment'')]) = Inr (res', h')"
    by (auto simp: Let_def split: sum.splits)
  have "grows (result @ [length ?h1]) (?h1 @ [newModel (onType @ ''InlineFragment'')]) res' h'"
    using "7.IH"[OF tc refl refl a refl refl inner] .
  from grows_trans[OF grows_alloc this] have "grows result ?h1 res' h'" .
  from grows_trans[OF grows_pushInlineFragment this] show ?case .
qed

subsection \<open>Link fields\<close>

lemma nth_pushField_other: "i \<noteq> a \<Longrightarrow> pushField h a f ! i = h ! i"
  by (simp add: pushField_def)
lemma nth_pushFragmentUsed_other: "i \<noteq> a \<Longrightarrow> pushFragmentUsed h a f ! i = h ! i"
  by (simp add: pushFragmentUsed_def Let_def)
lemma nth_pushInlineFragment_other: "i \<noteq> a \<Longrightarrow> pushInlineFragment h a f ! i = h ! i"
  by (simp add: pushInlineFragment_def Let_def)

lemma fields_pushField_same:
  "a < length h \<Longrightarrow> m_fields (pushField h a f ! a) = m_fields (h ! a) @ [f]"
  by (simp add: pushField_def)

lemma keeps_trans:
  assumes "keeps a h a1 h1" "keeps a1 h1 a' h'" "length h \<le> length h1"
  shows "keeps a h a' h'"
  using assms by (auto simp: keeps_def split: option.splits)

lemma builder_frame:
  "buildInnerModelsArray u s root sels pm a res h = Inr (res', h') \<Longrightarrow>
     \<forall>i<length h. Some i \<noteq> a \<longrightarrow> h' ! i = h ! i"
  "forEachSelection u s root pm sl a res h = Inr (a', res', h') \<Longrightarrow> keeps a h a' h'"
  "onSelection u s root pm sel a res h = Inr (a', res', h') \<Longrightarrow> keeps a h a' h'"
proof (induction u s root sels pm a res h and u s root pm sl a res h and u s root pm sel a res h
       arbitrary: res' h' and a' res' h' and a' res' h'
       rule: buildInnerModelsArray_forEachSelection_onSelection.induct)
  case (1 u s rootObject primitivesMap appendTo result h)
  then show ?case by simp
next
  case (2 u s rootObject selections primitivesMap appendTo result h)
  from "2.prems" obtain a1 where
    "forEachSelection u s rootObject primitivesMap selections appendTo result h = Inr (a1, res', h')"
    by (auto split: sum.splits)
  from "2.IH"[OF this] show ?case by (simp add: keeps_def)
next
  case (3 u s rootObject primitivesMap appendTo result h)
  then show ?case by (auto simp: keeps_def split: option.splits)
next
  case (4 u s rootObject primitivesMap selectionNode rest appendTo result h)
  from "4.prems" obtain a1 r1 h1 where
    step: "onSelection u s rootObject primitivesMap selectionNode appendTo result h = Inr (a1, r1, h1)"
    and rest: "forEachSelection u s rootObject primitivesMap rest a1 r1 h1 = Inr (a', res', h')"
    by (auto split: sum.splits)
  from builder_grows(3)[OF step] have "length h \<le> length h1" by (simp add: grows_def)
  with "4.IH"(1)[OF step] "4.IH"(2)[OF step refl refl rest]
  show ?case by (rule keeps_trans)
next
  case (5 u s rootObject primitivesMap fieldName al selectionSet appendTo result h)
  show ?case
  proof (cases "getFieldDef u rootObject (Field fieldName al selectionSet)")
    case None
    with "5.prems" show ?thesis by simp
  next
    case (Some rawType)
    show ?thesis
    proof (cases "isObjectType (getType s (getNamedType rawType))")
      case False
      with "5.prems" Some show ?thesis
        by (auto simp: Let_def keeps_def nth_pushField_other split: option.splits)
    next
      case True
      let ?mn = "handleNameDuplications u (pascalCase u fieldName) (deref h result)"
      from "5.prems" Some True obtain r1 h1 where
        inner: "buildInnerModelsArray u s (getType s (getNamedType rawType)) selectionSet
                  primitivesMap (Some (length h)) (result @ [length h]) (h @ [newModel ?mn])
                = Inr (r1, h1)"
        by (auto simp: Let_def split: sum.splits)
      from "5.IH"[OF refl Some refl True refl refl inner]
      have fr: "\<forall>i<length h. h1 ! i = h ! i" by (auto simp: nth_append)
      from builder_grows(1)[OF inner] have len: "length h < length h1" by (simp add: grows_def)
      show ?thesis
      proof (cases appendTo)
        case None
        with "5.prems" Some True inner
        have "a' = Some (length h1)" "\<exists>f. h' = pushField (h1 @ [newModel ''Result'']) (length h1) f"
          by (auto simp: Let_def)
        with None fr len show ?thesis
          by (auto simp: keeps_def nth_pushField_other nth_append)
      next
        case a: (Some a0)
        with "5.prems" Some True inner
        have "a' = Some a0" "\<exists>f. h' = pushField h1 a0 f"
          by (auto simp: Let_def)
        with a fr show ?thesis
          by (auto simp: keeps_def nth_pushField_other)
      qed
    qed
  qed
next
  case (6 u s rootObject primitivesMap fragmentName appendTo result h)
  then show ?case
    by (auto simp: keeps_def nth_pushFragmentUsed_other split: option.splits)
next
  case (7 u s rootObject primitivesMap typeCondition selectionSet appendTo result h)
  from "7.prems" obtain onType a0 where tc: "typeCondition = Some onType" and a: "appendTo = Some a0"
    by (auto simp: Let_def split: option.splits)
  let ?h1 = "pushInlineFragment h a0
               \<lparr>ife_typeName = onType @ ''InlineFragment'', ife_onModel = onType\<rparr>"
  from "7.prems" tc a have
    inner: "buildInnerModelsArray u s (getType s onType) selectionSet primitivesMap
              (Some (length ?h1)) (result @ [length ?h1])
              (?h1 @ [newModel (onType @ ''InlineFragment'')]) = Inr (res', h')"
    and a': "a' = Some a0"
    by (auto simp: Let_def split: sum.splits)
  from "7.IH"[OF tc refl refl a refl refl inner]
  have "\<forall>i<length h. h' ! i = ?h1 ! i" by (auto simp: nth_append)
  with a a' show ?case by (auto simp: keeps_def nth_pushInlineFragment_other)
qed

text \<open>
  Claim C2, as amended. When \<^verbatim>\<open>buildInnerModelsArray\<close> handles a field whose named
  type is an object type, the enclosing model (the model passed as \<^verbatim>\<open>appendTo\<close>, or at
  the root the \<^verbatim>\<open>Result\<close> model created at that moment) receives exactly one new
  entry; the entry carries the alias-or-name of the field and, as its type, the name that
  \<^verbatim>\<open>handleNameDuplications\<close> returned, and a model of that name is in the flat array
  \<^verbatim>\<open>result\<close>. A field of any other named type, a union or an interface included, gets
  no sub-declaration: the enclosing model receives one entry whose type is what
  \<^verbatim>\<open>getTypeName\<close> returns, and neither \<^verbatim>\<open>result\<close> nor the number of models changes.
\<close>

theorem link_field_names_a_model_of_result:
  assumes "onSelection u s root pm (Field fieldName al ss) appendTo res h = Inr (appendTo', res', h')"
    and "getFieldDef u root (Field fieldName al ss) = Some rawType"
    and "case appendTo of None \<Rightarrow> True | Some a \<Rightarrow> a < length h"
  shows "(isObjectType (getType s (getNamedType rawType)) \<longrightarrow>
      (\<exists>a. appendTo' = Some a \<and> a < length h' \<and>
         (case appendTo of
            Some a0 \<Rightarrow> a = a0 \<and>
              m_fields (h' ! a) = m_fields (h ! a0) @
                [\<lparr>fe_name = (case al of Some x \<Rightarrow> x | None \<Rightarrow> fieldName),
                  fe_type = handleNameDuplications u (pascalCase u fieldName) (deref h res),
                  fe_isArray = isArray u rawType, fe_isRequired = isRequired u rawType\<rparr>]
          | None \<Rightarrow> length h \<le> a \<and> last res' = a \<and> m_name (h' ! a) = ''Result'' \<and>
              m_fields (h' ! a) =
                [\<lparr>fe_name = (case al of Some x \<Rightarrow> x | None \<Rightarrow> fieldName),
                  fe_type = handleNameDuplications u (pascalCase u fieldName) (deref h res),
                  fe_isArray = isArray u rawType, fe_isRequired = isRequired u rawType\<rparr>]) \<and>
         handleNameDuplications u (pascalCase u fieldName) (deref h res)
           \<in> set (map m_name (deref h' res'))))
    \<and> (\<not> isObjectType (getType s (getNamedType rawType)) \<longrightarrow>
      (\<exists>a0. appendTo = Some a0 \<and> appendTo' = Some a0 \<and> res' = res \<and> length h' = length h \<and>
         m_fields (h' ! a0) = m_fields (h ! a0) @
           [\<lparr>fe_name = (case al of Some x \<Rightarrow> x | None \<Rightarrow> fieldName),
             fe_type = getTypeName u pm (getType s (getNamedType rawType)),
             fe_isArray = isArray u rawType, fe_isRequired = isRequired u rawType\<rparr>]))"
proof (intro conjI impI)
  assume obj: "isObjectType (getType s (getNamedType rawType))"
  let ?mn = "handleNameDuplications u (pascalCase u fieldName) (deref h res)"
  let ?entry = "\<lparr>fe_name = (case al of Some x \<Rightarrow> x | None \<Rightarrow> fieldName), fe_type = ?mn,
         fe_isArray = isArray u rawType, fe_isRequired = isRequired u rawType\<rparr>"
  from assms(1,2) obj obtain r1 h1 where
    inner: "buildInnerModelsArray u s (getType s (getNamedType rawType)) ss
              pm (Some (length h)) (res @ [length h]) (h @ [newModel ?mn]) = Inr (r1, h1)"
    by (auto simp: Let_def split: sum.splits)
  from builder_grows(1)[OF inner]
  have len: "length h < length h1"
    and pre: "\<exists>ys. r1 = res @ length h # ys"
    and nm: "m_name (h1 ! length h) = ?mn"
    by (auto simp: grows_def nth_append)
  from builder_frame(1)[OF inner]
  have fr: "\<forall>i<length h. h1 ! i = h ! i" by (auto simp: nth_append)
  show "\<exists>a. appendTo' = Some a \<and> a < length h' \<and>
         (case appendTo of
            Some a0 \<Rightarrow> a = a0 \<and> m_fields (h' ! a) = m_fields (h ! a0) @ [?entry]
          | None \<Rightarrow> length h \<le> a \<and> last res' = a \<and> m_name (h' ! a) = ''Result'' \<and>
              m_fields (h' ! a) = [?entry]) \<and>
         ?mn \<in> set (map m_name (deref h' res'))"
  proof (cases appendTo)
    case None
    with assms(1,2) obj inner
    have r: "appendTo' = Some (length h1)" "res' = r1 @ [length h1]"
      "h' = pushField (h1 @ [newModel ''Result'']) (length h1) ?entry"
      by (auto simp: Let_def)
    have "m_name (h' ! length h) = ?mn"
      using nm len by (simp add: r nth_append)
    moreover have "length h \<in> set res'" using pre r by auto
    ultimately have "?mn \<in> set (map m_name (deref h' res'))"
      by (force simp: deref_def)
    moreover have "m_fields (h' ! length h1) = [?entry]"
      by (simp add: r pushField_def newModel_def)
    moreover have "m_name (h' ! length h1) = ''Result''"
      by (simp add: r)
    ultimately show ?thesis
      using len by (simp add: r None)
  next
    case (Some a0)
    with assms(1,2) obj inner
    have r: "appendTo' = Some a0" "res' = r1" "h' = pushField h1 a0 ?entry"
      by (auto simp: Let_def)
    from Some assms(3) have a0: "a0 < length h" by simp
    with len have a: "a0 < length h1" by simp
    have "m_name (h' ! length h) = ?mn"
      using nm by (simp add: r)
    moreover have "length h \<in> set res'" using pre r by auto
    ultimately have "?mn \<in> set (map m_name (deref h' res'))"
      by (force simp: deref_def)
    moreover have "m_fields (h' ! a0) = m_fields (h ! a0) @ [?entry]"
      using fr a0 a by (simp add: r fields_pushField_same)
    ultimately show ?thesis
      using a by (simp add: r Some)
  qed
next
  assume nobj: "\<not> isObjectType (getType s (getNamedType rawType))"
  from assms(1,2) nobj obtain a0 where a: "appendTo = Some a0"
    by (cases appendTo) (auto simp: Let_def)
  with assms(3) have "a0 < length h" by simp
  with assms(1,2) nobj a
  show "\<exists>a0. appendTo = Some a0 \<and> appendTo' = Some a0 \<and> res' = res \<and> length h' = length h \<and>
         m_fields (h' ! a0) = m_fields (h ! a0) @
           [\<lparr>fe_name = (case al of Some x \<Rightarrow> x | None \<Rightarrow> fieldName),
             fe_type = getTypeName u pm (getType s (getNamedType rawType)),
             fe_isArray = isArray u rawType, fe_isRequired = isRequired u rawType\<rparr>]"
    by (auto simp: Let_def fields_pushField_same)
qed

theorem link_field_names_a_model_of_result_witness:
  "m_fields ([\<lparr>m_name = ''Q'',
            m_fields = [\<lparr>fe_name = ''f'', fe_type = ''Friend'', fe_isArray = False,
                         fe_isRequired = False\<rparr>],
            m_fragmentsUsed = [], m_inlineFragments = [], m_usingFragments = None,
            m_hasInlineFragments = None\<rparr>,
          \<lparr>m_name = ''Friend'',
            m_fields = [\<lparr>fe_name = ''name'', fe_type = ''String'', fe_isArray = False,
                         fe_isRequired = False\<rparr>],
            m_fragmentsUsed = [], m_inlineFragments = [], m_usingFragments = None,
            m_hasInlineFragments = None\<rparr>] ! 0)
        = m_fields ([newModel ''Q''] ! 0) @
            [\<lparr>fe_name = ''f'', fe_type = ''Friend'', fe_isArray = False,
              fe_isRequired = False\<rparr>]
   \<and> ''Friend'' \<in> set (map m_name (deref
         [\<lparr>m_name = ''Q'',
            m_fields = [\<lparr>fe_name = ''f'', fe_type = ''Friend'', fe_isArray = False,
                         fe_isRequired = False\<rparr>],
            m_fragmentsUsed = [], m_inlineFragments = [], m_usingFragments = None,
            m_hasInlineFragments = None\<rparr>,
          \<lparr>m_name = ''Friend'',
            m_fields = [\<lparr>fe_name = ''name'', fe_type = ''String'', fe_isArray = False,
                         fe_isRequired = False\<rparr>],
            m_fragmentsUsed = [], m_inlineFragments = [], m_usingFragments = None,
            m_hasInlineFragments = None\<rparr>] [0, 1]))
   \<and> m_fields ([\<lparr>m_name = ''Q'',
            m_fields = [\<lparr>fe_name = ''pets'', fe_type = ''Animal'', fe_isArray = True,
                         fe_isRequired = True\<rparr>],
            m_fragmentsUsed = [], m_inlineFragments = [], m_usingFragments = None,
            m_hasInlineFragments = None\<rparr>] ! 0)
       = m_fields ([newModel ''Q''] ! 0) @
            [\<lparr>fe_name = ''pets'', fe_type = ''Animal'', fe_isArray = True,
              fe_isRequired = True\<rparr>]"
proof -
  let ?H1 = "[\<lparr>m_name = ''Q'',
            m_fields = [\<lparr>fe_name = ''f'', fe_type = ''Friend'', fe_isArray = False,
                         fe_isRequired = False\<rparr>],
            m_fragmentsUsed = [], m_inlineFragments = [], m_usingFragments = None,
            m_hasInlineFragments = None\<rparr>,
          \<lparr>m_name = ''Friend'',
            m_fields = [\<lparr>fe_name = ''name'', fe_type = ''String'', fe_isArray = False,
                         fe_isRequired = False\<rparr>],
            m_fragmentsUsed = [], m_inlineFragments = [], m_usingFragments = None,
            m_hasInlineFragments = None\<rparr>]"
  let ?H2 = "[\<lparr>m_name = ''Q'',
            m_fields = [\<lparr>fe_name = ''pets'', fe_type = ''Animal'', fe_isArray = True,
                         fe_isRequired = True\<rparr>],
            m_fragmentsUsed = [], m_inlineFragments = [], m_usingFragments = None,
            m_hasInlineFragments = None\<rparr>]"
  let ?f1 = "Field ''friend'' (Some ''f'') (Some [Field ''name'' None None])"
  let ?f2 = "Field ''pets'' None
               (Some [InlineFragment (Some ''Cat'') (Some [Field ''meow'' None None])])"
  have ok1: "onSelection sampleUtils sampleSchema (Some personT) [] ?f1 (Some 0) [0]
               [newModel ''Q''] = Inr (Some 0, [0, 1], ?H1)"
    by code_simp
  have ok2: "onSelection sampleUtils sampleSchema (Some personT) [] ?f2 (Some 0) [0]
               [newModel ''Q''] = Inr (Some 0, [0], ?H2)"
    by code_simp
  have fd1: "getFieldDef sampleUtils (Some personT) ?f1 = Some (NamedType ''Person'')"
    by (simp add: sampleUtils_def lookupFieldDef_def personT_def)
  have fd2: "getFieldDef sampleUtils (Some personT) ?f2
               = Some (NonNullType (ListType (NonNullType (NamedType ''Animal''))))"
    by (simp add: sampleUtils_def lookupFieldDef_def personT_def)
  have v: "case Some (0::nat) of None \<Rightarrow> True | Some a \<Rightarrow> a < length [newModel ''Q'']"
    by simp
  have ob1: "isObjectType (getType sampleSchema (getNamedType (NamedType ''Person'')))"
    by (simp add: isObjectType_def getType_def sampleSchema_def personT_def)
  have ob2: "\<not> isObjectType (getType sampleSchema
               (getNamedType (NonNullType (ListType (NonNullType (NamedType ''Animal''))))))"
    by (simp add: isObjectType_def getType_def sampleSchema_def animalT_def)
  have nm: "handleNameDuplications sampleUtils (pascalCase sampleUtils ''friend'')
              (deref [newModel ''Q''] [0]) = ''Friend''"
    by code_simp
  have tn: "getTypeName sampleUtils [] (getType sampleSchema
               (getNamedType (NonNullType (ListType (NonNullType (NamedType ''Animal''))))))
            = ''Animal''"
    by code_simp
  have ar: "isArray sampleUtils (NonNullType (ListType (NonNullType (NamedType ''Animal''))))"
       "isRequired sampleUtils (NonNullType (ListType (NonNullType (NamedType ''Animal''))))"
       "\<not> isArray sampleUtils (NamedType ''Person'')"
       "\<not> isRequired sampleUtils (NamedType ''Person'')"
    by (simp_all add: sampleUtils_def sampleIsArray_def sampleIsRequired_def)
  from link_field_names_a_model_of_result[OF ok1 fd1 v] ob1
  have a1: "m_fields (?H1 ! 0) = m_fields ([newModel ''Q''] ! 0) @
            [\<lparr>fe_name = ''f'', fe_type = ''Friend'', fe_isArray = False,
              fe_isRequired = False\<rparr>]"
    and a2: "''Friend'' \<in> set (map m_name (deref ?H1 [0, 1]))"
    unfolding nm using ar(3,4) by auto
  from link_field_names_a_model_of_result[OF ok2 fd2 v] ob2
  have a3: "m_fields (?H2 ! 0) = m_fields ([newModel ''Q''] ! 0) @
            [\<lparr>fe_name = ''pets'', fe_type = ''Animal'', fe_isArray = True,
              fe_isRequired = True\<rparr>]"
    unfolding tn using ar(1,2) by auto
  from a1 a2 a3 show ?thesis by (simp only: simp_thms)
qed

subsection \<open>Names of the models\<close>

text \<open>
  Claim C3, evaluated where it fails. For
  \<^verbatim>\<open>{ me { ... on Person { name } ... on Person { n: name } } }\<close> the returned array holds
  two models named \<^verbatim>\<open>PersonInlineFragment\<close>: the name of the model of an inline
  fragment is the type condition followed by \<^verbatim>\<open>InlineFragment\<close>, and it is not passed
  through \<^verbatim>\<open>handleNameDuplications\<close> as the name of the model of a field is.
\<close>

theorem inline_fragment_models_share_a_name:
  "map_sum id (map m_name) (modelsOf (buildInnerModelsArray sampleUtils sampleSchema (Some queryT)
      (Some [Field ''me'' None
         (Some [InlineFragment (Some ''Person'') (Some [Field ''name'' None None]),
                InlineFragment (Some ''Person'') (Some [Field ''name'' (Some ''n'') None])])])
      [] None [] []))
   = Inr [''Me'', ''PersonInlineFragment'', ''PersonInlineFragment'', ''Result'']"
  by code_simp

subsection \<open>The root call\<close>

lemma root_step_fails:
  assumes "\<not> isObjectField u s root x"
  shows "\<exists>e. onSelection u s root pm x None res h = Inl e"
  using assms
  by (cases x) (auto simp: isObjectField_def Let_def split: option.splits)

lemma root_object_field_creates_Result:
  assumes "onSelection u s root pm x None res h = Inr (a', res', h')"
  shows "isObjectField u s root x \<and>
         (\<exists>a. a' = Some a \<and> a < length h' \<and> m_name (h' ! a) = ''Result'' \<and> last res' = a)"
proof -
  from assms root_step_fails[of u s root x pm res h] have obj: "isObjectField u s root x"
    by auto
  then obtain n al ss rawType where x: "x = Field n al ss"
    and fd: "getFieldDef u root (Field n al ss) = Some rawType"
    and ot: "isObjectType (getType s (getNamedType rawType))"
    by (cases x) (auto simp: isObjectField_def split: option.splits)
  from assms x fd ot obtain r1 h1 where
    "a' = Some (length h1)" "res' = r1 @ [length h1]"
    "\<exists>f. h' = pushField (h1 @ [newModel ''Result'']) (length h1) f"
    by (auto simp: Let_def split: sum.splits)
  with obj show ?thesis by (auto simp: nth_append)
qed

text \<open>
  Claim C10. In a call without \<^verbatim>\<open>appendTo\<close>, when a leaf field or a fragment spread
  comes before every field of an object type, the call ends in an exception and returns no
  array; when that selection is the first one, the exception is the \<^verbatim>\<open>TypeError\<close> of
  reading \<^verbatim>\<open>fields\<close> or \<^verbatim>\<open>fragmentsUsed\<close> of the undefined \<^verbatim>\<open>appendTo\<close>.
\<close>

theorem root_call_fails_before_first_object_field:
  assumes "sels = pre @ x # post"
    and "list_all (\<lambda>y. \<not> isObjectField u s root y) pre"
    and "isLeafField u s root x \<or> isFragmentSpread x"
  shows "(\<exists>e. buildInnerModelsArray u s root (Some sels) pm None res h = Inl e)
     \<and> (pre = [] \<longrightarrow>
          buildInnerModelsArray u s root (Some sels) pm None res h
            = Inl (TypeError (if isFragmentSpread x then ''fragmentsUsed'' else ''fields'')))"
proof
  have nx: "\<not> isObjectField u s root x"
    using assms(3)
    by (cases x) (auto simp: isLeafField_def isObjectField_def isFragmentSpread_def
                       split: option.splits)
  obtain y ys where sels: "sels = y # ys" and ny: "\<not> isObjectField u s root y"
  proof (cases pre)
    case Nil
    with assms(1) nx that show ?thesis by simp
  next
    case (Cons p ps)
    with assms(1,2) that show ?thesis by simp
  qed
  from root_step_fails[OF ny] obtain e where "onSelection u s root pm y None res h = Inl e"
    by blast
  with sels show "\<exists>e. buildInnerModelsArray u s root (Some sels) pm None res h = Inl e"
    by simp
next
  show "pre = [] \<longrightarrow>
          buildInnerModelsArray u s root (Some sels) pm None res h
            = Inl (TypeError (if isFragmentSpread x then ''fragmentsUsed'' else ''fields''))"
    using assms(1,3)
    by (cases x) (auto simp: isLeafField_def isFragmentSpread_def Let_def split: option.splits)
qed

theorem root_call_fails_before_first_object_field_witness:
  "(\<exists>e. buildInnerModelsArray sampleUtils sampleSchema (Some personT)
         (Some [Field ''name'' None None, Field ''friend'' None (Some [Field ''name'' None None])])
         [] None [] [] = Inl e)
   \<and> buildInnerModelsArray sampleUtils sampleSchema (Some personT)
         (Some [Field ''name'' None None, Field ''friend'' None (Some [Field ''name'' None None])])
         [] None [] [] = Inl (TypeError ''fields'')"
  using root_call_fails_before_first_object_field
     [where pre = "[]" and x = "Field ''name'' None None"
        and post = "[Field ''friend'' None (Some [Field ''name'' None None])]"
        and sels = "[Field ''name'' None None, Field ''friend'' None (Some [Field ''name'' None None])]"
        and u = sampleUtils and s = sampleSchema and root = "Some personT"
        and pm = "[]" and res = "[]" and h = "[]"]
  by (simp add: isLeafField_def isFragmentSpread_def sampleUtils_def lookupFieldDef_def
        personT_def sampleSchema_def getType_def isObjectType_def stringT_def)

subsection \<open>Independence of the store the call starts in\<close>

lemma deref_relocate [simp]: "deref (hp @ h) (map ((+) (length hp)) res) = deref h res"
  by (simp add: deref_def nth_append)

lemma pushField_relocate [simp]:
  "pushField (hp @ h) (length hp + a) f = hp @ pushField h a f"
  by (simp add: pushField_def list_update_append nth_append)

lemma pushFragmentUsed_relocate [simp]:
  "pushFragmentUsed (hp @ h) (length hp + a) n = hp @ pushFragmentUsed h a n"
  by (simp add: pushFragmentUsed_def Let_def list_update_append nth_append)

lemma pushInlineFragment_relocate [simp]:
  "pushInlineFragment (hp @ h) (length hp + a) e = hp @ pushInlineFragment h a e"
  by (simp add: pushInlineFragment_def Let_def list_update_append nth_append)

lemma relocate_simps [simp]:
  "relocate2 hp (Inl e) = Inl e"
  "relocate2 hp (Inr (res, h)) = Inr (map ((+) (length hp)) res, hp @ h)"
  "relocate3 hp (Inl e) = Inl e"
  "relocate3 hp (Inr (a, res, h)) =
     Inr (map_option ((+) (length hp)) a, map ((+) (length hp)) res, hp @ h)"
  by (simp_all add: relocate2_def relocate3_def)

lemma builder_relocate:
  "buildInnerModelsArray u s root sels pm (map_option ((+) (length hp)) a)
       (map ((+) (length hp)) res) (hp @ h)
     = relocate2 hp (buildInnerModelsArray u s root sels pm a res h)"
  "forEachSelection u s root pm sl (map_option ((+) (length hp)) a)
       (map ((+) (length hp)) res) (hp @ h)
     = relocate3 hp (forEachSelection u s root pm sl a res h)"
  "onSelection u s root pm sel (map_option ((+) (length hp)) a)
       (map ((+) (length hp)) res) (hp @ h)
     = relocate3 hp (onSelection u s root pm sel a res h)"
proof (induction u s root sels pm a res h and u s root pm sl a res h and u s root pm sel a res h
       rule: buildInnerModelsArray_forEachSelection_onSelection.induct)
  case (1 u s rootObject primitivesMap appendTo result h)
  show ?case by simp
next
  case (2 u s rootObject selections primitivesMap appendTo result h)
  then show ?case by (auto split: sum.splits)
next
  case (3 u s rootObject primitivesMap appendTo result h)
  show ?case by simp
next
  case (4 u s rootObject primitivesMap selectionNode rest appendTo result h)
  show ?case
  proof (cases "onSelection u s rootObject primitivesMap selectionNode appendTo result h")
    case (Inl e)
    with "4.IH"(1) show ?thesis by simp
  next
    case (Inr st)
    obtain a1 r1 h1 where st: "st = (a1, r1, h1)" by (cases st)
    from "4.IH"(1) Inr st "4.IH"(2)[OF Inr[unfolded st] refl refl]
    show ?thesis by simp
  qed
next
  case (5 u s rootObject primitivesMap fieldName al selectionSet appendTo result h)
  show ?case
  proof (cases "getFieldDef u rootObject (Field fieldName al selectionSet)")
    case None
    then show ?thesis by simp
  next
    case (Some rawType)
    show ?thesis
    proof (cases "isObjectType (getType s (getNamedType rawType))")
      case False
      with Some show ?thesis by (cases appendTo) (simp_all add: Let_def)
    next
      case True
      let ?mn = "handleNameDuplications u (pascalCase u fieldName) (deref h result)"
      have ih: "buildInnerModelsArray u s (getType s (getNamedType rawType)) selectionSet
                  primitivesMap (Some (length hp + length h))
                  (map ((+) (length hp)) result @ [length hp + length h])
                  (hp @ h @ [newModel ?mn])
           = relocate2 hp (buildInnerModelsArray u s (getType s (getNamedType rawType)) selectionSet
                  primitivesMap (Some (length h)) (result @ [length h]) (h @ [newModel ?mn]))"
        using "5.IH"[OF refl Some refl True refl refl] by simp
      show ?thesis
      proof (cases "buildInnerModelsArray u s (getType s (getNamedType rawType)) selectionSet
                  primitivesMap (Some (length h)) (result @ [length h]) (h @ [newModel ?mn])")
        case (Inl e)
        with Some True ih show ?thesis by (simp add: Let_def)
      next
        case (Inr p)
        obtain r1 h1 where p: "p = (r1, h1)" by (cases p)
        have "pushField (hp @ h1 @ [newModel ''Result'']) (length hp + length h1) f
              = hp @ pushField (h1 @ [newModel ''Result'']) (length h1) f" for f
          using pushField_relocate[of hp "h1 @ [newModel ''Result'']" "length h1" f] by simp
        with Some True ih Inr p show ?thesis
          by (cases appendTo) (simp_all add: Let_def)
      qed
    qed
  qed
next
  case (6 u s rootObject primitivesMap fragmentName appendTo result h)
  show ?case by (cases appendTo) simp_all
next
  case (7 u s rootObject primitivesMap typeCondition selectionSet appendTo result h)
  show ?case
  proof (cases typeCondition)
    case None
    then show ?thesis by simp
  next
    case (Some onType)
    show ?thesis
    proof (cases appendTo)
      case None
      with Some show ?thesis by (simp add: Let_def)
    next
      case a: (Some a)
      let ?h1 = "pushInlineFragment h a
               \<lparr>ife_typeName = onType @ ''InlineFragment'', ife_onModel = onType\<rparr>"
      have ih: "buildInnerModelsArray u s (getType s onType) selectionSet primitivesMap
                  (Some (length hp + length h))
                  (map ((+) (length hp)) result @ [length hp + length h])
                  (hp @ ?h1 @ [newModel (onType @ ''InlineFragment'')])
           = relocate2 hp (buildInnerModelsArray u s (getType s onType) selectionSet primitivesMap
                  (Some (length ?h1)) (result @ [length ?h1])
                  (?h1 @ [newModel (onType @ ''InlineFragment'')]))"
        using "7.IH"[OF Some refl refl a refl refl] by simp
      show ?thesis
        using Some a ih
        by (cases "buildInnerModelsArray u s (getType s onType) selectionSet primitivesMap
                  (Some (length ?h1)) (result @ [length ?h1])
                  (?h1 @ [newModel (onType @ ''InlineFragment'')])")
           (auto simp: Let_def)
    qed
  qed
qed

lemma modelsOf_relocate2 [simp]: "modelsOf (relocate2 hp r) = modelsOf r"
  by (cases r) (auto simp: modelsOf_def)

text \<open>
  The models a root call returns, or the exception it raises, are the same whatever
  objects the store held before the call.
\<close>

lemma models_independent_of_prior_store:
  "modelsOf (buildInnerModelsArray u s root sels pm None [] h1)
   = modelsOf (buildInnerModelsArray u s root sels pm None [] h2)"
proof -
  have fresh: "modelsOf (buildInnerModelsArray u s root sels pm None [] hp)
        = modelsOf (buildInnerModelsArray u s root sels pm None [] [])" for hp
    using builder_relocate(1)[of u s root sels pm hp None "[]" "[]"] by simp
  from fresh[of h1] fresh[of h2] show ?thesis by (rule trans[OF _ sym])
qed

end
